theory Spec2Isabelle
  imports Complex_Main
begin

section \<open>JavaScript strings and regular expressions\<close>

text \<open>
  The convention checker of the repository (the files under \<^verbatim>\<open>tests/\<close>) reads page
  documents and stylesheets as JavaScript strings and scans them with regular expression
  literals.  A JavaScript string is a sequence of UTF-16 code units; here a string is a
  \<^typ>\<open>string\<close>, each \<^typ>\<open>char\<close> standing for one code unit below 256, so that
  \<^const>\<open>length\<close> counts what \<^verbatim>\<open>.length\<close> counts.

  The regular expressions of the source are sequences of single-character matchers, greedy
  quantifiers over a single-character matcher, capture groups, and the assertion \<^verbatim>\<open>$\<close> (\<open>AtEnd\<close>).  They are kept as data
  (\<open>item list\<close>) and run by a backtracking matcher that tries the alternatives in
  the order the ECMAScript semantics prescribes: a greedy quantifier first tries to take
  one more character and falls back to taking none.
\<close>

definition lowerAZ :: string where
  "lowerAZ = ''abcdefghijklmnopqrstuvwxyz''"

definition upperAZ :: string where
  "upperAZ = ''ABCDEFGHIJKLMNOPQRSTUVWXYZ''"

text \<open>Canonicalisation of the \<^verbatim>\<open>i\<close> flag: ASCII letters are compared in upper case.\<close>

definition canon :: "char \<Rightarrow> char" where
  "canon c = (case map_of (zip lowerAZ upperAZ) c of Some u \<Rightarrow> u | None \<Rightarrow> c)"

definition lower :: "char \<Rightarrow> char" where
  "lower c = (case map_of (zip upperAZ lowerAZ) c of Some l \<Rightarrow> l | None \<Rightarrow> c)"

datatype catom = Ch char | Rng char char

datatype cset = Lit char | Cls bool "catom list"

definition in_range :: "char \<Rightarrow> char \<Rightarrow> char \<Rightarrow> bool" where
  "in_range lo hi c = ((of_char lo :: nat) \<le> of_char c \<and> (of_char c :: nat) \<le> of_char hi)"

text \<open>
  With the \<^verbatim>\<open>i\<close> flag a class member \<open>a\<close> matches \<open>c\<close> when both canonicalise to
  the same character, that is when \<open>a\<close> is \<open>c\<close> or one of its two ASCII case variants.
\<close>

fun atom_match :: "bool \<Rightarrow> catom \<Rightarrow> char \<Rightarrow> bool" where
  "atom_match ci (Ch a) c = (if ci then canon a = canon c else a = c)"
| "atom_match ci (Rng lo hi) c =
     (in_range lo hi c \<or> (ci \<and> (in_range lo hi (canon c) \<or> in_range lo hi (lower c))))"

text \<open>\<open>Cls neg as\<close> is the class \<^verbatim>\<open>[...]\<close> (\<open>neg = False\<close>) or \<^verbatim>\<open>[^...]\<close> (\<open>neg = True\<close>).\<close>

fun cmatch :: "bool \<Rightarrow> cset \<Rightarrow> char \<Rightarrow> bool" where
  "cmatch ci (Lit a) c = atom_match ci (Ch a) c"
| "cmatch ci (Cls neg as) c = (list_ex (\<lambda>a. atom_match ci a c) as \<noteq> neg)"

datatype item = One cset | Star cset | Plus cset | Opt cset | GroupOpen | GroupClose | AtEnd

text \<open>
  \<open>rmatch ci r s\<close> matches \<open>r\<close> at the beginning of \<open>s\<close>.  The result holds the
  input that was left at each group boundary, in the order met, and the input left after
  the match.
\<close>

fun rmatch :: "bool \<Rightarrow> item list \<Rightarrow> string \<Rightarrow> (string list \<times> string) option" where
  "rmatch ci [] s = Some ([], s)"
| "rmatch ci (One p # r) [] = None"
| "rmatch ci (One p # r) (c # cs) = (if cmatch ci p c then rmatch ci r cs else None)"
| "rmatch ci (Plus p # r) [] = None"
| "rmatch ci (Plus p # r) (c # cs) = (if cmatch ci p c then rmatch ci (Star p # r) cs else None)"
| "rmatch ci (Opt p # r) [] = rmatch ci r []"
| "rmatch ci (Opt p # r) (c # cs) =
     (if cmatch ci p c
      then (case rmatch ci r cs of Some res \<Rightarrow> Some res | None \<Rightarrow> rmatch ci r (c # cs))
      else rmatch ci r (c # cs))"
| "rmatch ci (Star p # r) [] = rmatch ci r []"
| "rmatch ci (Star p # r) (c # cs) =
     (if cmatch ci p c
      then (case rmatch ci (Star p # r) cs of Some res \<Rightarrow> Some res | None \<Rightarrow> rmatch ci r (c # cs))
      else rmatch ci r (c # cs))"
| "rmatch ci (GroupOpen # r) s = map_option (\<lambda>(ms, rest). (s # ms, rest)) (rmatch ci r s)"
| "rmatch ci (GroupClose # r) s = map_option (\<lambda>(ms, rest). (s # ms, rest)) (rmatch ci r s)"
| "rmatch ci (AtEnd # r) s = (if s = [] then rmatch ci r [] else None)"

text \<open>The captures \<^verbatim>\<open>match[1]\<close>, \<^verbatim>\<open>match[2]\<close>, ... from the group boundaries.\<close>

fun groups :: "string list \<Rightarrow> string list" where
  "groups (a # b # ms) = take (length a - length b) a # groups ms"
| "groups _ = []"

text \<open>A match: the matched text \<^verbatim>\<open>match[0]\<close> and the captures.\<close>

record jsmatch =
  whole :: string
  caps :: "string list"

definition mkMatch :: "string \<Rightarrow> string list \<Rightarrow> string \<Rightarrow> jsmatch" where
  "mkMatch start ms rest = \<lparr>whole = take (length start - length rest) start, caps = groups ms\<rparr>"

text \<open>
  The leftmost match at or after the current position: the result is the match and the
  input after it.
\<close>

fun rsearch :: "bool \<Rightarrow> item list \<Rightarrow> string \<Rightarrow> (jsmatch \<times> string) option" where
  "rsearch ci r [] =
     (case rmatch ci r [] of Some (ms, rest) \<Rightarrow> Some (mkMatch [] ms rest, rest) | None \<Rightarrow> None)"
| "rsearch ci r (c # cs) =
     (case rmatch ci r (c # cs) of
        Some (ms, rest) \<Rightarrow> Some (mkMatch (c # cs) ms rest, rest)
      | None \<Rightarrow> rsearch ci r cs)"

text \<open>\<^verbatim>\<open>regex.test(s)\<close> and \<^verbatim>\<open>s.match(regex)\<close> for a regex without the \<^verbatim>\<open>g\<close> flag.\<close>

definition regexTest :: "bool \<Rightarrow> item list \<Rightarrow> string \<Rightarrow> bool" where
  "regexTest ci r s = (rsearch ci r s \<noteq> None)"

definition regexMatch :: "bool \<Rightarrow> item list \<Rightarrow> string \<Rightarrow> jsmatch option" where
  "regexMatch ci r s = map_option fst (rsearch ci r s)"

text \<open>
  The loop \<^verbatim>\<open>while ((match = regex.exec(s)) !== null) { ... }\<close> over a regex with the
  \<^verbatim>\<open>g\<close> flag: each call searches from \<^verbatim>\<open>lastIndex\<close> and moves it behind the match.
  After an empty match \<^verbatim>\<open>lastIndex\<close> stays where it is and the loop finds the same
  match for ever; \<open>None\<close> stands for that.
\<close>

function execAll :: "bool \<Rightarrow> item list \<Rightarrow> string \<Rightarrow> jsmatch list option" where
  "execAll ci r s =
     (case rsearch ci r s of
        None \<Rightarrow> Some []
      | Some (m, rest) \<Rightarrow>
          if length rest < length s
          then (case execAll ci r rest of None \<Rightarrow> None | Some ms \<Rightarrow> Some (m # ms))
          else None)"
  by pat_completeness auto
termination
  by (relation "measure (\<lambda>(ci, r, s). length s)") auto

declare execAll.simps [simp del]

text \<open>The items of a regex that are group boundaries.\<close>

fun isGroup :: "item \<Rightarrow> bool" where
  "isGroup GroupOpen = True"
| "isGroup GroupClose = True"
| "isGroup _ = False"

definition lits :: "string \<Rightarrow> item list" where
  "lits s = map (\<lambda>c. One (Lit c)) s"

text \<open>The classes \<^verbatim>\<open>["']\<close>, \<^verbatim>\<open>[^"']\<close> and \<^verbatim>\<open>[^>]\<close>.\<close>

definition quote :: cset where
  "quote = Cls False [Ch (CHR 0x22), Ch (CHR 0x27)]"

definition notQuote :: cset where
  "notQuote = Cls True [Ch (CHR 0x22), Ch (CHR 0x27)]"

definition notGt :: cset where
  "notGt = Cls True [Ch (CHR ''>'')]"


section \<open>Outcomes of a check and the files it reads\<close>

text \<open>
  A test case passes, fails at an \<^verbatim>\<open>expect\<close>, or raises an error of its own
  (\<^verbatim>\<open>throw new Error(...)\<close>, or the error of \<^verbatim>\<open>fs.readFileSync\<close> on a file that is not
  there).  The working tree is a map from the path below the project root to the text of
  the file.
\<close>

datatype outcome = Passed | Failed | Raised string

type_synonym files = "string \<rightharpoonup> string"

text \<open>\<^verbatim>\<open>files.forEach(filename => { ... })\<close>: the first file that does not pass ends the test.\<close>

fun forEachFile :: "(string \<Rightarrow> outcome option) \<Rightarrow> string list \<Rightarrow> outcome option" where
  "forEachFile body [] = Some Passed"
| "forEachFile body (f # fs) =
     (case body f of
        None \<Rightarrow> None
      | Some Passed \<Rightarrow> forEachFile body fs
      | Some out \<Rightarrow> Some out)"

definition htmlFiles :: "string list" where
  "htmlFiles = [''index.html'', ''publications.html'', ''awards.html'', ''teaching.html'',
     ''outreach.html'', ''news.html'', ''resume.html'']"

text \<open>\<^verbatim>\<open>match[i]\<close> for \<open>i \<ge> 1\<close>; \<open>None\<close> is \<^verbatim>\<open>undefined\<close>.\<close>

definition cap :: "jsmatch \<Rightarrow> nat \<Rightarrow> string option" where
  "cap m i = (if 1 \<le> i \<and> i \<le> length (caps m) then Some (caps m ! (i - 1)) else None)"

section \<open>Heading hierarchy (tests/accessibility.test.js)\<close>

text \<open>The regex \<^verbatim>\<open>/<h([1-6])[^>]*>/gi\<close>.\<close>

definition headingRegex :: "item list" where
  "headingRegex = lits ''<h'' @
     [GroupOpen, One (Cls False [Rng (CHR ''1'') (CHR ''6'')]), GroupClose,
      Star notGt, One (Lit (CHR ''>''))]"

definition isDigit :: "char \<Rightarrow> bool" where
  "isDigit c = in_range (CHR ''0'') (CHR ''9'') c"

fun parseDigits :: "nat \<Rightarrow> string \<Rightarrow> nat" where
  "parseDigits acc [] = acc"
| "parseDigits acc (c # cs) =
     (if isDigit c then parseDigits (10 * acc + (of_char c - 48)) cs else acc)"

text \<open>
  \<^verbatim>\<open>parseInt(s)\<close> on a string that starts with a decimal digit or is empty, which is all
  the heading check passes to it; \<open>None\<close> is \<^verbatim>\<open>NaN\<close>.
\<close>

definition parseInt :: "string option \<Rightarrow> int option" where
  "parseInt v =
     (case v of
        None \<Rightarrow> None
      | Some [] \<Rightarrow> None
      | Some (c # cs) \<Rightarrow> if isDigit c then Some (int (parseDigits 0 (c # cs))) else None)"

text \<open>The list \<^verbatim>\<open>headings\<close> that the loop over the matches builds.\<close>

definition extractHeadings :: "string \<Rightarrow> int option list option" where
  "extractHeadings html =
     map_option (map (\<lambda>m. parseInt (cap m 1))) (execAll True headingRegex html)"

text \<open>
  The loop \<^verbatim>\<open>for (let i = 1; i < headings.length; i++)\<close>: \<^verbatim>\<open>diff\<close> is
  \<^verbatim>\<open>headings[i] - headings[i - 1]\<close>, and a comparison with \<^verbatim>\<open>NaN\<close> is false.
\<close>

definition jsMinus :: "int option \<Rightarrow> int option \<Rightarrow> int option" where
  "jsMinus a b = (case (a, b) of (Some x, Some y) \<Rightarrow> Some (x - y) | _ \<Rightarrow> None)"

definition jsGreater :: "int option \<Rightarrow> int \<Rightarrow> bool" where
  "jsGreater a k = (case a of Some x \<Rightarrow> x > k | None \<Rightarrow> False)"

definition jsLessEq :: "int option \<Rightarrow> int \<Rightarrow> bool" where
  "jsLessEq a k = (case a of Some x \<Rightarrow> x \<le> k | None \<Rightarrow> False)"

fun headingSteps :: "int option list \<Rightarrow> bool" where
  "headingSteps (a # b # hs) =
     ((if jsGreater (jsMinus b a) 0 then jsLessEq (jsMinus b a) 1 else True)
      \<and> headingSteps (b # hs))"
| "headingSteps hs = True"

definition headingStructure :: "string \<Rightarrow> outcome option" where
  "headingStructure html =
     (case extractHeadings html of
        None \<Rightarrow> None
      | Some headings \<Rightarrow>
          Some (if length (filter (\<lambda>h. h = Some 1) headings) \<ge> 1
                then (if headingSteps headings then Passed else Failed)
                else Failed))"

text \<open>The test \<open>sections have proper heading structure\<close>.\<close>

definition headingStructureFile :: "files \<Rightarrow> string \<Rightarrow> outcome option" where
  "headingStructureFile fs filename =
     (case fs filename of None \<Rightarrow> Some Passed | Some html \<Rightarrow> headingStructure html)"

definition headingStructureTest :: "files \<Rightarrow> outcome option" where
  "headingStructureTest fs = forEachFile (headingStructureFile fs) htmlFiles"

section \<open>Navigation behaviour (js/navigation.js)\<close>

text \<open>
  What \<^verbatim>\<open>initNavbarScrollBehavior\<close> reads and writes: the class list of the element that
  \<^verbatim>\<open>document.querySelector('.navbar')\<close> returns (\<open>None\<close> when there is no such element),
  \<^verbatim>\<open>window.scrollY\<close>, and whether \<^verbatim>\<open>updateNavbarOnScroll\<close> is registered for scroll
  events.
\<close>

record window =
  navbar :: "string list option"
  scrollY :: real
  listening :: bool

definition classListAdd :: "string \<Rightarrow> string list \<Rightarrow> string list" where
  "classListAdd t cl = (if t \<in> set cl then cl else cl @ [t])"

definition classListRemove :: "string \<Rightarrow> string list \<Rightarrow> string list" where
  "classListRemove t cl = filter (\<lambda>x. x \<noteq> t) cl"

definition updateNavbarOnScroll :: "window \<Rightarrow> window" where
  "updateNavbarOnScroll w =
     (case navbar w of
        None \<Rightarrow> w
      | Some cl \<Rightarrow>
          if scrollY w > 50
          then w\<lparr>navbar := Some (classListAdd ''navbar-scrolled'' cl)\<rparr>
          else w\<lparr>navbar := Some (classListRemove ''navbar-scrolled'' cl)\<rparr>)"

definition initNavbarScrollBehavior :: "window \<Rightarrow> window" where
  "initNavbarScrollBehavior w =
     (case navbar w of
        None \<Rightarrow> w
      | Some cl \<Rightarrow> (updateNavbarOnScroll w)\<lparr>listening := True\<rparr>)"

text \<open>A scroll event: the browser has moved the offset to \<open>y\<close> and calls the listeners.\<close>

definition scrollEvent :: "real \<Rightarrow> window \<Rightarrow> window" where
  "scrollEvent y w =
     (let w' = w\<lparr>scrollY := y\<rparr> in if listening w' then updateNavbarOnScroll w' else w')"

fun scrollEvents :: "real list \<Rightarrow> window \<Rightarrow> window" where
  "scrollEvents [] w = w"
| "scrollEvents (y # ys) w = scrollEvents ys (scrollEvent y w)"

definition carriesScrolled :: "window \<Rightarrow> bool" where
  "carriesScrolled w = (case navbar w of None \<Rightarrow> False | Some cl \<Rightarrow> ''navbar-scrolled'' \<in> set cl)"

text \<open>What holds of the window once the behaviour is installed.\<close>

definition navbarInv :: "window \<Rightarrow> bool" where
  "navbarInv w = (navbar w \<noteq> None \<and> listening w \<and> (carriesScrolled w \<longleftrightarrow> scrollY w > 50))"

section \<open>External links (tests/accessibility.test.js)\<close>

text \<open>The regex \<^verbatim>\<open>/<a[^>]*href=["']([^"']*)["'][^>]*>/gi\<close>.\<close>

definition linkRegex :: "item list" where
  "linkRegex = lits ''<a'' @ [Star notGt] @ lits ''href='' @
     [One quote, GroupOpen, Star notQuote, GroupClose, One quote,
      Star notGt, One (Lit (CHR ''>''))]"

definition startsWith :: "string \<Rightarrow> string \<Rightarrow> bool" where
  "startsWith s p = (take (length p) s = p)"

record link =
  tag :: string
  href :: string

text \<open>
  The body of the loop in \<^verbatim>\<open>extractExternalLinks\<close>.  The group of the link regex takes part
  in every match, so \<^verbatim>\<open>match[1]\<close> is never \<^verbatim>\<open>undefined\<close> there.
\<close>

definition externalLink :: "jsmatch \<Rightarrow> link list" where
  "externalLink m =
     (case cap m 1 of
        None \<Rightarrow> []
      | Some h \<Rightarrow>
          if startsWith h ''http://'' \<or> startsWith h ''https://''
          then [\<lparr>tag = whole m, href = h\<rparr>] else [])"

definition extractExternalLinks :: "string \<Rightarrow> link list option" where
  "extractExternalLinks html =
     map_option (\<lambda>ms. concat (map externalLink ms)) (execAll True linkRegex html)"

text \<open>
  \<^verbatim>\<open>linkHasAttribute(linkTag, attribute, value = null)\<close>; the regex is built from the two
  strings, which hold no character that is special in a regex where the tests call it.
  An empty \<^verbatim>\<open>value\<close> is falsy, as \<^verbatim>\<open>null\<close> is.
\<close>

definition linkHasAttribute :: "string \<Rightarrow> string \<Rightarrow> string option \<Rightarrow> bool" where
  "linkHasAttribute linkTag attribute val =
     (case val of
        Some (v # vs) \<Rightarrow>
          regexTest True (lits attribute @ [One (Lit (CHR ''='')), One quote] @ lits (v # vs) @ [One quote]) linkTag
      | _ \<Rightarrow>
          regexTest True (lits attribute @ [One (Lit (CHR ''='')), One quote, Star notQuote, One quote]) linkTag)"

text \<open>The regex \<^verbatim>\<open>/rel=["']([^"']*)["']/i\<close> and the value \<^verbatim>\<open>relValue\<close> taken from its match.\<close>

definition relRegex :: "item list" where
  "relRegex = lits ''rel='' @ [One quote, GroupOpen, Star notQuote, GroupClose, One quote]"

definition relValue :: "string \<Rightarrow> string" where
  "relValue linkTag =
     (case regexMatch True relRegex linkTag of
        None \<Rightarrow> []
      | Some m \<Rightarrow> (case cap m 1 of Some v \<Rightarrow> v | None \<Rightarrow> []))"

text \<open>\<^verbatim>\<open>xs.forEach(x => { expect(p(x)).toBe(true); })\<close>: the first failing \<^verbatim>\<open>expect\<close> ends the test.\<close>

fun forEachExpect :: "('a \<Rightarrow> bool) \<Rightarrow> 'a list \<Rightarrow> outcome" where
  "forEachExpect p [] = Passed"
| "forEachExpect p (x # xs) = (if p x then forEachExpect p xs else Failed)"

text \<open>The three \<^verbatim>\<open>expect\<close>s on one link in the test of the rel attribute, in their order.\<close>

definition relExpectations :: "link \<Rightarrow> bool" where
  "relExpectations l =
     (linkHasAttribute (tag l) ''rel'' None
      \<and> regexTest False (lits ''noopener'') (relValue (tag l))
      \<and> regexTest False (lits ''noreferrer'') (relValue (tag l)))"

definition targetExpectation :: "link \<Rightarrow> bool" where
  "targetExpectation l = linkHasAttribute (tag l) ''target'' (Some ''_blank'')"

text \<open>The properties \<open>all external links have target="_blank"\<close> and
  \<open>all external links have rel="noopener noreferrer"\<close> on the text of one page.\<close>

definition externalLinksTarget :: "string \<Rightarrow> outcome option" where
  "externalLinksTarget html = map_option (forEachExpect targetExpectation) (extractExternalLinks html)"

definition externalLinksRel :: "string \<Rightarrow> outcome option" where
  "externalLinksRel html = map_option (forEachExpect relExpectations) (extractExternalLinks html)"

text \<open>The same on a file name: a file that is not there is skipped.\<close>

definition externalLinksTargetFile :: "files \<Rightarrow> string \<Rightarrow> outcome option" where
  "externalLinksTargetFile fs filename =
     (case fs filename of None \<Rightarrow> Some Passed | Some html \<Rightarrow> externalLinksTarget html)"

definition externalLinksRelFile :: "files \<Rightarrow> string \<Rightarrow> outcome option" where
  "externalLinksRelFile fs filename =
     (case fs filename of None \<Rightarrow> Some Passed | Some html \<Rightarrow> externalLinksRel html)"

text \<open>Two anchors for the examples: the second has no rel attribute.\<close>

definition dq :: string where
  "dq = [CHR 0x22]"



section \<open>External resources (tests/performance.test.js)\<close>

text \<open>
  The four regexes of \<^verbatim>\<open>extractExternalResources\<close>:
  \<^verbatim>\<open>/<link[^>]*href=["'](https?:\/\/[^"']+)["'][^>]*>/gi\<close>,
  \<^verbatim>\<open>/<script[^>]*src=["'](https?:\/\/[^"']+)["'][^>]*>/gi\<close>,
  \<^verbatim>\<open>/<img[^>]*src=["'](https?:\/\/[^"']+)["'][^>]*>/gi\<close> and
  \<^verbatim>\<open>/<img[^>]*src=["'](\/\/[^"']+)["'][^>]*>/gi\<close>.
\<close>

definition absoluteUrl :: "item list" where
  "absoluteUrl = [GroupOpen] @ lits ''http'' @ [Opt (Lit (CHR ''s''))] @ lits ''://'' @
     [Plus notQuote, GroupClose]"

definition tagEnd :: "item list" where
  "tagEnd = [One quote, Star notGt, One (Lit (CHR ''>''))]"

definition linkResourceRegex :: "item list" where
  "linkResourceRegex = lits ''<link'' @ [Star notGt] @ lits ''href='' @ [One quote] @ absoluteUrl @ tagEnd"

definition scriptResourceRegex :: "item list" where
  "scriptResourceRegex = lits ''<script'' @ [Star notGt] @ lits ''src='' @ [One quote] @ absoluteUrl @ tagEnd"

definition imgResourceRegex :: "item list" where
  "imgResourceRegex = lits ''<img'' @ [Star notGt] @ lits ''src='' @ [One quote] @ absoluteUrl @ tagEnd"

definition protocolRelativeRegex :: "item list" where
  "protocolRelativeRegex = lits ''<img'' @ [Star notGt] @ lits ''src='' @ [One quote] @
     [GroupOpen] @ lits ''//'' @ [Plus notQuote, GroupClose] @ tagEnd"

text \<open>\<^verbatim>\<open>'https:' + match[1]\<close>; a value that is \<^verbatim>\<open>undefined\<close> is printed as such.\<close>

definition httpsPrefixed :: "string option \<Rightarrow> string option" where
  "httpsPrefixed v = (case v of Some u \<Rightarrow> Some (''https:'' @ u) | None \<Rightarrow> Some ''https:undefined'')"

text \<open>
  The array \<^verbatim>\<open>resources\<close>: what the four loops push, in their order.  An entry is
  \<^verbatim>\<open>match[1]\<close>, so \<open>None\<close> is \<^verbatim>\<open>undefined\<close>.
\<close>

definition extractExternalResources :: "string \<Rightarrow> string option list option" where
  "extractExternalResources html =
     (case execAll True linkResourceRegex html of None \<Rightarrow> None | Some links \<Rightarrow>
      case execAll True scriptResourceRegex html of None \<Rightarrow> None | Some scripts \<Rightarrow>
      case execAll True imgResourceRegex html of None \<Rightarrow> None | Some imgs \<Rightarrow>
      case execAll True protocolRelativeRegex html of None \<Rightarrow> None | Some rels \<Rightarrow>
        Some (map (\<lambda>m. cap m 1) links @ map (\<lambda>m. cap m 1) scripts @ map (\<lambda>m. cap m 1) imgs
              @ map (\<lambda>m. httpsPrefixed (cap m 1)) rels))"

text \<open>\<^verbatim>\<open>[...new Set(xs)]\<close> keeps the first occurrence of each value.\<close>

definition uniqueValues :: "'a list \<Rightarrow> 'a list" where
  "uniqueValues xs = rev (remdups (rev xs))"

text \<open>The property \<open>external HTTP requests should not exceed 15 per page\<close> on one page.\<close>

definition externalRequests :: "string \<Rightarrow> outcome option" where
  "externalRequests html =
     map_option (\<lambda>externalResources.
        if length (uniqueValues externalResources) \<le> 15 then Passed else Failed)
       (extractExternalResources html)"

definition externalRequestsFile :: "files \<Rightarrow> string \<Rightarrow> outcome option" where
  "externalRequestsFile fs filename =
     (case fs filename of None \<Rightarrow> Some Passed | Some html \<Rightarrow> externalRequests html)"

text \<open>
  The object \<^verbatim>\<open>resourceCounts\<close> as the list of its entries in the order of insertion; the
  key of a value is the value as a string.  \<^verbatim>\<open>resourceCounts[url] = (resourceCounts[url] || 0) + 1\<close>
  is \<open>countUrl\<close>.
\<close>

definition propertyKey :: "string option \<Rightarrow> string" where
  "propertyKey v = (case v of Some u \<Rightarrow> u | None \<Rightarrow> ''undefined'')"

fun countUrl :: "string \<Rightarrow> (string \<times> nat) list \<Rightarrow> (string \<times> nat) list" where
  "countUrl k [] = [(k, 0 + 1)]"
| "countUrl k ((k', c) # kvs) =
     (if k = k' then (k', (if c = 0 then 0 else c) + 1) # kvs else (k', c) # countUrl k kvs)"

fun resourceCounts :: "string option list \<Rightarrow> (string \<times> nat) list \<Rightarrow> (string \<times> nat) list" where
  "resourceCounts [] counts = counts"
| "resourceCounts (url # urls) counts = resourceCounts urls (countUrl (propertyKey url) counts)"

text \<open>The test \<open>pages should minimize duplicate external resources\<close> on one page.\<close>

definition duplicateResources :: "string \<Rightarrow> outcome option" where
  "duplicateResources html =
     map_option (\<lambda>externalResources.
        let duplicates = filter (\<lambda>(url, count). count > 1) (resourceCounts externalResources [])
        in if length duplicates = 0 then Passed else Failed)
       (extractExternalResources html)"

definition duplicateResourcesFile :: "files \<Rightarrow> string \<Rightarrow> outcome option" where
  "duplicateResourcesFile fs filename =
     (case fs filename of None \<Rightarrow> Some Passed | Some html \<Rightarrow> duplicateResources html)"

definition duplicateResourcesTest :: "files \<Rightarrow> outcome option" where
  "duplicateResourcesTest fs = forEachFile (duplicateResourcesFile fs) htmlFiles"




section \<open>Alternative text of images (tests/accessibility.test.js)\<close>

text \<open>\<^verbatim>\<open>xs.forEach(x => { ... })\<close> with a body that may fail or raise: the first such \<open>x\<close> ends the test.\<close>

fun forEachOutcome :: "('a \<Rightarrow> outcome) \<Rightarrow> 'a list \<Rightarrow> outcome" where
  "forEachOutcome body [] = Passed"
| "forEachOutcome body (x # xs) =
     (case body x of Passed \<Rightarrow> forEachOutcome body xs | out \<Rightarrow> out)"

text \<open>The regexes \<^verbatim>\<open>/<img[^>]*>/gi\<close> and \<^verbatim>\<open>/alt=["']([^"']*)["']/\<close>.\<close>

definition imgRegex :: "item list" where
  "imgRegex = lits ''<img'' @ [Star notGt, One (Lit (CHR ''>''))]"

definition altRegex :: "item list" where
  "altRegex = lits ''alt='' @ [One quote, GroupOpen, Star notQuote, GroupClose, One quote]"

text \<open>The tags \<^verbatim>\<open>imgTag\<close> that the loop over the matches of the image regex visits.\<close>

definition imgTags :: "string \<Rightarrow> string list option" where
  "imgTags html = map_option (map whole) (execAll True imgRegex html)"

text \<open>
  \<^verbatim>\<open>String.prototype.trim\<close> and \<^verbatim>\<open>toLowerCase\<close> on code units below 256: the white space
  there is tab, line feed, vertical tab, form feed, carriage return, space and no-break
  space; the capital letters are A to Z and, but for the multiplication sign, the code
  units 192 to 222.
\<close>

definition isSpace :: "char \<Rightarrow> bool" where
  "isSpace c = ((of_char c :: nat) \<in> {9, 10, 11, 12, 13, 32, 160})"

definition trim :: "string \<Rightarrow> string" where
  "trim s = rev (dropWhile isSpace (rev (dropWhile isSpace s)))"

definition lowerCaseChar :: "char \<Rightarrow> char" where
  "lowerCaseChar c =
     (let n = (of_char c :: nat)
      in if (65 \<le> n \<and> n \<le> 90) \<or> (192 \<le> n \<and> n \<le> 222 \<and> n \<noteq> 215) then char_of (n + 32) else c)"

definition toLowerCase :: "string \<Rightarrow> string" where
  "toLowerCase s = map lowerCaseChar s"

definition genericTerms :: "string list" where
  "genericTerms = [''image'', ''photo'', ''picture'', ''img'']"

text \<open>The test \<open>all images have non-empty alt text\<close>: the body of its loop, on one tag.\<close>

definition nonEmptyAltTag :: "string \<Rightarrow> outcome" where
  "nonEmptyAltTag imgTag =
     (case regexMatch False altRegex imgTag of
        Some altMatch \<Rightarrow>
          (case cap altMatch 1 of
             None \<Rightarrow> Raised ''TypeError''
           | Some altText \<Rightarrow> if length (trim altText) > 0 then Passed else Failed)
      | None \<Rightarrow> Failed)"

definition nonEmptyAlt :: "string \<Rightarrow> outcome option" where
  "nonEmptyAlt html = map_option (forEachOutcome nonEmptyAltTag) (imgTags html)"

definition nonEmptyAltFile :: "files \<Rightarrow> string \<Rightarrow> outcome option" where
  "nonEmptyAltFile fs filename =
     (case fs filename of None \<Rightarrow> Some Passed | Some html \<Rightarrow> nonEmptyAlt html)"

definition nonEmptyAltTest :: "files \<Rightarrow> outcome option" where
  "nonEmptyAltTest fs = forEachFile (nonEmptyAltFile fs) htmlFiles"

text \<open>The test \<open>alt text is descriptive\<close>.\<close>

definition descriptiveAltTag :: "string \<Rightarrow> outcome" where
  "descriptiveAltTag imgTag =
     (case regexMatch False altRegex imgTag of
        Some altMatch \<Rightarrow>
          (case cap altMatch 1 of
             None \<Rightarrow> Raised ''TypeError''
           | Some v \<Rightarrow>
               let altText = trim v in
               if length altText \<ge> 3
               then (let isGeneric = list_ex (\<lambda>term. toLowerCase altText = term) genericTerms
                     in if isGeneric = False then Passed else Failed)
               else Failed)
      | None \<Rightarrow> Passed)"

definition descriptiveAlt :: "string \<Rightarrow> outcome option" where
  "descriptiveAlt html = map_option (forEachOutcome descriptiveAltTag) (imgTags html)"

definition descriptiveAltFile :: "files \<Rightarrow> string \<Rightarrow> outcome option" where
  "descriptiveAltFile fs filename =
     (case fs filename of None \<Rightarrow> Some Passed | Some html \<Rightarrow> descriptiveAlt html)"

definition descriptiveAltTest :: "files \<Rightarrow> outcome option" where
  "descriptiveAltTest fs = forEachFile (descriptiveAltFile fs) htmlFiles"

text \<open>
  The test \<open>decorative images can have empty alt\<close>: \<^verbatim>\<open>isDecorative\<close> and the body of the
  loop; \<^verbatim>\<open>expect(altMatch[1]).toBeDefined()\<close> is its only expectation.
\<close>

definition isDecorative :: "string \<Rightarrow> bool" where
  "isDecorative imgTag =
     (regexTest False (lits ''role='' @ [One quote] @ lits ''presentation'' @ [One quote]) imgTag
      \<or> regexTest False (lits ''aria-hidden='' @ [One quote] @ lits ''true'' @ [One quote]) imgTag)"

definition decorativeAltTag :: "string \<Rightarrow> outcome" where
  "decorativeAltTag imgTag =
     (if isDecorative imgTag
      then (case regexMatch False altRegex imgTag of
              Some altMatch \<Rightarrow> if cap altMatch 1 \<noteq> None then Passed else Failed
            | None \<Rightarrow> Passed)
      else Passed)"

definition decorativeAlt :: "string \<Rightarrow> outcome option" where
  "decorativeAlt html = map_option (forEachOutcome decorativeAltTag) (imgTags html)"

definition decorativeAltFile :: "files \<Rightarrow> string \<Rightarrow> outcome option" where
  "decorativeAltFile fs filename =
     (case fs filename of None \<Rightarrow> Some Passed | Some html \<Rightarrow> decorativeAlt html)"

definition decorativeAltTest :: "files \<Rightarrow> outcome option" where
  "decorativeAltTest fs = forEachFile (decorativeAltFile fs) htmlFiles"

text \<open>An image marked decorative, with an empty alt, and a page that holds it.\<close>

definition decorativeImg :: string where
  "decorativeImg = ''<img src='' @ dq @ ''d.png'' @ dq @ '' alt='' @ dq @ dq
     @ '' role='' @ dq @ ''presentation'' @ dq @ ''>''"

definition pageDecorativeImg :: string where
  "pageDecorativeImg = ''<p>'' @ decorativeImg @ ''</p>''"

text \<open>The value \<^verbatim>\<open>altMatch[1]\<close> of a tag, when the tag has a match of the alt regex.\<close>

definition altValue :: "string \<Rightarrow> string option" where
  "altValue imgTag =
     (case regexMatch False altRegex imgTag of Some altMatch \<Rightarrow> cap altMatch 1 | None \<Rightarrow> None)"

section \<open>Publication entries (tests/styling.test.js)\<close>

text \<open>
  \<^verbatim>\<open>extractElementsByClass(html, className)\<close> with its regex
  \<^verbatim>\<open><([a-z][a-z0-9]*)([^>]*class="[^"]*${className}[^"]*"[^>]*)>\<close>, flags \<^verbatim>\<open>gi\<close>; the class
  name the test passes holds no character that is special in a regex.
\<close>

definition notDq :: cset where
  "notDq = Cls True [Ch (CHR 0x22)]"

definition elementRegex :: "string \<Rightarrow> item list" where
  "elementRegex className = lits ''<'' @
     [GroupOpen, One (Cls False [Rng (CHR ''a'') (CHR ''z'')]),
      Star (Cls False [Rng (CHR ''a'') (CHR ''z''), Rng (CHR ''0'') (CHR ''9'')]), GroupClose,
      GroupOpen, Star notGt] @ lits ''class='' @ [One (Lit (CHR 0x22)), Star notDq] @
     lits className @ [Star notDq, One (Lit (CHR 0x22)), Star notGt, GroupClose,
      One (Lit (CHR ''>''))]"

record element =
  elementTag :: "string option"
  attributes :: "string option"
  fullMatch :: string

definition extractElementsByClass :: "string \<Rightarrow> string \<Rightarrow> element list option" where
  "extractElementsByClass html className =
     map_option (map (\<lambda>m. \<lparr>elementTag = cap m 1, attributes = cap m 2, fullMatch = whole m\<rparr>))
       (execAll True (elementRegex className) html)"

text \<open>\<^verbatim>\<open>s.split(/\s+/).filter(c => c.length > 0)\<close>: the maximal runs without white space.\<close>

fun splitSpaces :: "string \<Rightarrow> string \<Rightarrow> string list" where
  "splitSpaces cur [] = (if cur = [] then [] else [cur])"
| "splitSpaces cur (c # cs) =
     (if isSpace c then (if cur = [] then [] else [cur]) @ splitSpaces [] cs
      else splitSpaces (cur @ [c]) cs)"

text \<open>\<^verbatim>\<open>extractClasses(elementHtml)\<close> with the regex \<^verbatim>\<open>/class=["']([^"']*)["']/\<close>.\<close>

definition classRegex :: "item list" where
  "classRegex = lits ''class='' @ [One quote, GroupOpen, Star notQuote, GroupClose, One quote]"

definition extractClasses :: "string \<Rightarrow> string list" where
  "extractClasses elementHtml =
     (case regexMatch False classRegex elementHtml of
        None \<Rightarrow> []
      | Some classMatch \<Rightarrow>
          (case cap classMatch 1 of None \<Rightarrow> [] | Some v \<Rightarrow> splitSpaces [] v))"

text \<open>
  The property that \<^verbatim>\<open>fc.assert\<close> runs on an entry; an \<^verbatim>\<open>expect\<close> that fails in it, or a
  tag that is \<^verbatim>\<open>undefined\<close>, makes the property fail.
\<close>

definition entryProperty :: "element \<Rightarrow> bool" where
  "entryProperty entry =
     (''publication-entry'' \<in> set (extractClasses (fullMatch entry))
      \<and> (case elementTag entry of None \<Rightarrow> False | Some t \<Rightarrow> toLowerCase t = ''article''))"

text \<open>
  The test \<open>publication entries have consistent CSS classes\<close>.  \<^verbatim>\<open>fc.constantFrom(...entries)\<close>
  draws entries by their index; the indices it draws in the runs of \<^verbatim>\<open>fc.assert\<close> are the
  parameter \<open>draws\<close>.
\<close>

definition publicationEntryClasses :: "files \<Rightarrow> nat list \<Rightarrow> outcome option" where
  "publicationEntryClasses fs draws =
     (case fs ''publications.html'' of
        None \<Rightarrow> Some (Raised ''publications.html not found'')
      | Some html \<Rightarrow>
          (case extractElementsByClass html ''publication-entry'' of
             None \<Rightarrow> None
           | Some entries \<Rightarrow>
               Some (if length entries > 0
                     then forEachExpect entryProperty
                            (map (\<lambda>i. entries ! (i mod length entries)) draws)
                     else Failed)))"

text \<open>An article of the publications page, for the examples.\<close>

definition pagePublication :: string where
  "pagePublication = ''<article id=p1 class='' @ dq @ ''card publication-entry'' @ dq @ ''>x</article>''"

text \<open>A working tree without any of the files.\<close>

definition noFiles :: files where
  "noFiles = Map.empty"

section \<open>Build pipeline (gulpfile.js)\<close>

text \<open>
  The working tree the tasks act on: the entries of the project directory, each a path
  from the project root (its segments) with a file's content or the mark of a directory.
\<close>

type_synonym path = "string list"

datatype node = File string | Dir

type_synonym tree = "(path \<times> node) list"

definition existsSync :: "tree \<Rightarrow> path \<Rightarrow> bool" where
  "existsSync t p = (map_of t p \<noteq> None)"

text \<open>\<open>below p q\<close>: the path \<open>q\<close> is \<open>p\<close> or lies inside the directory \<open>p\<close>.\<close>

definition below :: "path \<Rightarrow> path \<Rightarrow> bool" where
  "below p q = (take (length p) q = p)"

text \<open>\<^verbatim>\<open>fs.rmSync(p, { recursive: true, force: true })\<close>.\<close>

definition rmSync :: "path \<Rightarrow> tree \<Rightarrow> tree" where
  "rmSync p t = filter (\<lambda>(q, n). \<not> below p q) t"

definition jqueryPath :: path where
  "jqueryPath = [''vendor'', ''jquery'']"

definition cleanVendor :: "tree \<Rightarrow> tree" where
  "cleanVendor t = (if existsSync t jqueryPath then rmSync jqueryPath t else t)"



definition hidden :: "path \<Rightarrow> bool" where
  "hidden rel = list_ex (\<lambda>seg. startsWith seg ''.'') rel"










text \<open>
  \<^verbatim>\<open>gulp.series(...)\<close> runs its tasks one after the other: a task starts when the one before
  has signalled that it is done.  A run is the list of these events, each with the working
  tree at that moment.
\<close>

datatype event = Started string | Finished string

type_synonym task = "string \<times> (tree \<Rightarrow> tree)"

fun series :: "task list \<Rightarrow> tree \<Rightarrow> (event \<times> tree) list" where
  "series [] t = []"
| "series ((name, f) # tasks) t = (Started name, t) # (Finished name, f t) # series tasks (f t)"

definition exportsClean :: "tree \<Rightarrow> (event \<times> tree) list" where
  "exportsClean = series [(''cleanVendor'', cleanVendor)]"






section \<open>Colour contrast (tests/accessibility.test.js)\<close>

text \<open>
  \<^verbatim>\<open>hexToRgb(hex)\<close> with the regex \<^verbatim>\<open>/^#?([a-f\d]{2})([a-f\d]{2})([a-f\d]{2})$/i\<close>: the
  assertion \<^verbatim>\<open>^\<close> lets the match start at the first character only.
\<close>

definition hexDigit :: cset where
  "hexDigit = Cls False [Rng (CHR ''a'') (CHR ''f''), Rng (CHR ''0'') (CHR ''9'')]"

definition hexRegex :: "item list" where
  "hexRegex = [Opt (Lit (CHR ''#'')),
     GroupOpen, One hexDigit, One hexDigit, GroupClose,
     GroupOpen, One hexDigit, One hexDigit, GroupClose,
     GroupOpen, One hexDigit, One hexDigit, GroupClose, AtEnd]"

definition execAtStart :: "bool \<Rightarrow> item list \<Rightarrow> string \<Rightarrow> jsmatch option" where
  "execAtStart ci r s = map_option (\<lambda>(ms, rest). mkMatch s ms rest) (rmatch ci r s)"

definition hexValue :: "char \<Rightarrow> nat option" where
  "hexValue c =
     (if in_range (CHR ''0'') (CHR ''9'') c then Some (of_char c - 48)
      else if in_range (CHR ''a'') (CHR ''f'') c then Some (of_char c - 87)
      else if in_range (CHR ''A'') (CHR ''F'') c then Some (of_char c - 55)
      else None)"

fun parseHexDigits :: "nat \<Rightarrow> string \<Rightarrow> nat" where
  "parseHexDigits acc [] = acc"
| "parseHexDigits acc (c # cs) =
     (case hexValue c of Some d \<Rightarrow> parseHexDigits (16 * acc + d) cs | None \<Rightarrow> acc)"

text \<open>
  \<^verbatim>\<open>parseInt(s, 16)\<close> on a string that starts with a hexadecimal digit or is empty, which
  is all that \<^verbatim>\<open>hexToRgb\<close> passes to it; \<open>None\<close> is \<^verbatim>\<open>NaN\<close>.
\<close>

definition parseInt16 :: "string option \<Rightarrow> nat option" where
  "parseInt16 v =
     (case v of
        None \<Rightarrow> None
      | Some [] \<Rightarrow> None
      | Some (c # cs) \<Rightarrow> if hexValue c = None then None else Some (parseHexDigits 0 (c # cs)))"

record rgb =
  red :: nat
  green :: nat
  blue :: nat

text \<open>The three groups of the regex hold hexadecimal digits, so no channel is \<^verbatim>\<open>NaN\<close>.\<close>

definition hexToRgb :: "string \<Rightarrow> rgb option" where
  "hexToRgb hex =
     (case execAtStart True hexRegex hex of
        None \<Rightarrow> None
      | Some result \<Rightarrow>
          (case (parseInt16 (cap result 1), parseInt16 (cap result 2), parseInt16 (cap result 3)) of
             (Some r, Some g, Some b) \<Rightarrow> Some \<lparr>red = r, green = g, blue = b\<rparr>
           | _ \<Rightarrow> None))"

text \<open>
  The arithmetic of \<^verbatim>\<open>getLuminance\<close> and \<^verbatim>\<open>getContrastRatio\<close> is that of IEEE 754 doubles.
  The two functions are given here over the reals with the rounding made explicit: \<open>fl\<close>
  rounds a real to the double that the machine stores for it (every decimal literal and
  the result of every operation is rounded), and \<open>pw\<close> is \<^verbatim>\<open>Math.pow\<close>.  The channel values
  and 255 are integers, which are doubles as they are.
\<close>

definition linearChannel :: "(real \<Rightarrow> real) \<Rightarrow> (real \<Rightarrow> real \<Rightarrow> real) \<Rightarrow> nat \<Rightarrow> real" where
  "linearChannel fl pw v =
     (let c = fl (real v / 255)
      in if c \<le> fl 0.03928 then fl (c / fl 12.92)
         else pw (fl (fl (c + fl 0.055) / fl 1.055)) (fl 2.4))"

definition getLuminance ::
  "(real \<Rightarrow> real) \<Rightarrow> (real \<Rightarrow> real \<Rightarrow> real) \<Rightarrow> nat \<Rightarrow> nat \<Rightarrow> nat \<Rightarrow> real" where
  "getLuminance fl pw r g b =
     (let rs = linearChannel fl pw r; gs = linearChannel fl pw g; bs = linearChannel fl pw b
      in fl (fl (fl (fl 0.2126 * rs) + fl (fl 0.7152 * gs)) + fl (fl 0.0722 * bs)))"

definition getContrastRatio ::
  "(real \<Rightarrow> real) \<Rightarrow> (real \<Rightarrow> real \<Rightarrow> real) \<Rightarrow> rgb \<Rightarrow> rgb \<Rightarrow> real" where
  "getContrastRatio fl pw color1 color2 =
     (let lum1 = getLuminance fl pw (red color1) (green color1) (blue color1);
          lum2 = getLuminance fl pw (red color2) (green color2) (blue color2);
          lighter = max lum1 lum2;
          darker = min lum1 lum2
      in fl (fl (lighter + fl 0.05) / fl (darker + fl 0.05)))"

text \<open>
  What is asked of the arithmetic.  Rounding is monotone, keeps 0 and 1, and is within a
  thousandth of its argument between 1/1024 and 1024; the power function is within a
  thousandth of the real power for a base between 1/1024 and 2 and an exponent between 2
  and 3.  Rounding to the nearest double and \<^verbatim>\<open>Math.pow\<close> are far more accurate than that in
  these ranges, and the exact arithmetic of the reals (\<open>\<lambda>x. x\<close> and \<open>powr\<close>) qualifies too.
\<close>

definition rounds :: "(real \<Rightarrow> real) \<Rightarrow> bool" where
  "rounds fl =
     ((\<forall>x y. x \<le> y \<longrightarrow> fl x \<le> fl y) \<and> fl 0 = 0 \<and> fl 1 = 1
      \<and> (\<forall>x. 1 / 1024 \<le> x \<and> x \<le> 1024 \<longrightarrow> \<bar>fl x - x\<bar> \<le> x / 1000))"

definition approximatesPow :: "(real \<Rightarrow> real \<Rightarrow> real) \<Rightarrow> bool" where
  "approximatesPow pw =
     (\<forall>x y. 1 / 1024 \<le> x \<and> x \<le> 2 \<and> 2 \<le> y \<and> y \<le> 3
        \<longrightarrow> \<bar>pw x y - x powr y\<bar> \<le> (x powr y) / 1000)"

text \<open>A colour with channels from 0 to 255, as \<^verbatim>\<open>hexToRgb\<close> returns them.\<close>

definition isRgb :: "rgb \<Rightarrow> bool" where
  "isRgb c = (red c \<le> 255 \<and> green c \<le> 255 \<and> blue c \<le> 255)"

text \<open>
  The contrast ratio in the words of the specification: each channel is divided by 255 and
  put through the piecewise gamma transform, the channels are weighted, and the ratio is
  that of the lighter luminance plus 0.05 to the darker luminance plus 0.05.
\<close>

definition specGamma :: "real \<Rightarrow> real" where
  "specGamma c = (if c \<le> 0.03928 then c / 12.92 else ((c + 0.055) / 1.055) powr 2.4)"

definition specLuminance :: "rgb \<Rightarrow> real" where
  "specLuminance c =
     0.2126 * specGamma (real (red c) / 255) + 0.7152 * specGamma (real (green c) / 255)
       + 0.0722 * specGamma (real (blue c) / 255)"

definition specContrastRatio :: "rgb \<Rightarrow> rgb \<Rightarrow> real" where
  "specContrastRatio c1 c2 =
     (max (specLuminance c1) (specLuminance c2) + 0.05)
       / (min (specLuminance c1) (specLuminance c2) + 0.05)"

text \<open>\<open>s\<close> starts with \<open>p\<close> when the case of ASCII letters is ignored.\<close>

definition startsWithCI :: "string \<Rightarrow> string \<Rightarrow> bool" where
  "startsWithCI s p = (map canon (take (length p) s) = map canon p)"

section \<open>Properties\<close>

subsection \<open>The matcher\<close>

lemma rmatch_suffix: "rmatch ci r s = Some (ms, rest) \<Longrightarrow> \<exists>u. s = u @ rest"
proof (induction ci r s arbitrary: ms rest rule: rmatch.induct)
  case (3 ci p r c cs)
  then obtain u where "cs = u @ rest" by (auto split: if_splits)
  then have "c # cs = (c # u) @ rest" by simp
  then show ?case by blast
next
  case (5 ci p r c cs)
  then obtain u where "cs = u @ rest" by (auto split: if_splits)
  then have "c # cs = (c # u) @ rest" by simp
  then show ?case by blast
next
  case (7 ci p r c cs)
  show ?case
  proof (cases "cmatch ci p c \<and> rmatch ci r cs \<noteq> None")
    case True
    with 7 obtain u where "cs = u @ rest" by (auto split: if_splits option.splits)
    then have "c # cs = (c # u) @ rest" by simp
    then show ?thesis by blast
  next
    case False
    with 7 show ?thesis by (auto split: if_splits option.splits)
  qed
next
  case (9 ci p r c cs)
  show ?case
  proof (cases "cmatch ci p c \<and> rmatch ci (Star p # r) cs \<noteq> None")
    case True
    with 9 obtain u where "cs = u @ rest" by (auto split: if_splits option.splits)
    then have "c # cs = (c # u) @ rest" by simp
    then show ?thesis by blast
  next
    case False
    with 9 show ?thesis by (auto split: if_splits option.splits)
  qed
qed (auto split: if_splits)

lemma rmatch_length: "rmatch ci r s = Some (ms, rest) \<Longrightarrow> length rest \<le> length s"
  using rmatch_suffix by fastforce

lemma rmatch_One_length: "rmatch ci (One p # r) s = Some (ms, rest) \<Longrightarrow> length rest < length s"
  by (cases s) (auto split: if_splits dest: rmatch_length)

lemma rsearch_length: "rsearch ci r s = Some (m, rest) \<Longrightarrow> length rest \<le> length s"
  by (induction s) (auto split: option.splits dest: rmatch_length)

lemma rsearch_One_length: "rsearch ci (One p # r) s = Some (m, rest) \<Longrightarrow> length rest < length s"
proof (induction s)
  case Nil then show ?case by (auto split: option.splits)
next
  case (Cons c cs)
  show ?case
  proof (cases "rmatch ci (One p # r) (c # cs)")
    case None
    with Cons show ?thesis by auto
  next
    case (Some a)
    then obtain ms rest' where a: "a = (ms, rest')" by (cases a)
    with Some Cons.prems have "rest' = rest" by simp
    with Some a show ?thesis using rmatch_One_length by blast
  qed
qed

lemma execAll_One_returns: "\<exists>ms. execAll ci (One p # r) s = Some ms"
proof (induction s rule: length_induct)
  case (1 s)
  show ?case
  proof (cases "rsearch ci (One p # r) s")
    case None
    then show ?thesis using execAll.simps[of ci "One p # r" s] by simp
  next
    case (Some a)
    then obtain m rest where a: "a = (m, rest)" by (cases a)
    with Some have lt: "length rest < length s" using rsearch_One_length by blast
    with 1 obtain ms where "execAll ci (One p # r) rest = Some ms" by blast
    with Some a lt show ?thesis using execAll.simps[of ci "One p # r" s] by simp
  qed
qed

lemma rmatch_marks: "rmatch ci r s = Some (ms, rest) \<Longrightarrow> length ms = length (filter isGroup r)"
  by (induction ci r s arbitrary: ms rest rule: rmatch.induct)
     (auto split: if_splits option.splits)


lemma rsearch_rmatch:
  "rsearch ci r s = Some (m, rest) \<Longrightarrow>
     \<exists>pre s' mk. s = pre @ s' \<and> rmatch ci r s' = Some (mk, rest) \<and> m = mkMatch s' mk rest"
proof (induction s)
  case Nil
  then show ?case by (auto split: option.splits)
next
  case (Cons c cs)
  show ?case
  proof (cases "rmatch ci r (c # cs)")
    case None
    with Cons obtain pre s' mk where "cs = pre @ s'" "rmatch ci r s' = Some (mk, rest)" "m = mkMatch s' mk rest"
      by auto
    then have "c # cs = (c # pre) @ s' \<and> rmatch ci r s' = Some (mk, rest) \<and> m = mkMatch s' mk rest" by simp
    then show ?thesis by blast
  next
    case (Some a)
    with Cons.prems have "c # cs = [] @ (c # cs) \<and> rmatch ci r (c # cs) = Some (fst a, rest) \<and> m = mkMatch (c # cs) (fst a) rest"
      by (auto split: prod.splits)
    then show ?thesis by blast
  qed
qed

lemma execAll_rmatch:
  "execAll ci r s = Some ms \<Longrightarrow> m \<in> set ms \<Longrightarrow>
     \<exists>s' mk rest. rmatch ci r s' = Some (mk, rest) \<and> m = mkMatch s' mk rest"
proof (induction s arbitrary: ms rule: length_induct)
  case (1 s)
  note unf = execAll.simps[of ci r s]
  show ?case
  proof (cases "rsearch ci r s")
    case None
    with 1(2,3) unf show ?thesis by simp
  next
    case (Some a)
    obtain m0 rest0 where a: "a = (m0, rest0)" by (cases a)
    from 1(2) Some a unf have lt: "length rest0 < length s" by (auto split: if_splits)
    from 1(2) Some a lt unf obtain ms' where ms': "execAll ci r rest0 = Some ms'" "ms = m0 # ms'"
      by (auto split: option.splits)
    from 1(3) ms' consider "m = m0" | "m \<in> set ms'" by auto
    then show ?thesis
    proof cases
      case 1
      with Some a rsearch_rmatch show ?thesis by blast
    next
      case 2
      with 1(1) lt ms' show ?thesis by blast
    qed
  qed
qed

lemma canon_cases: "canon c = c \<or> canon c \<in> set upperAZ"
  by (auto simp: canon_def split: option.splits dest!: map_of_SomeD set_zip_rightD)

lemma lower_cases: "lower c = c \<or> lower c \<in> set lowerAZ"
  by (auto simp: lower_def split: option.splits dest!: map_of_SomeD set_zip_rightD)

lemma upperAZ_not_digit: "x \<in> set upperAZ \<Longrightarrow> \<not> in_range (CHR ''0'') (CHR ''9'') x"
  by (auto simp: upperAZ_def in_range_def)

lemma lowerAZ_not_digit: "x \<in> set lowerAZ \<Longrightarrow> \<not> in_range (CHR ''0'') (CHR ''9'') x"
  by (auto simp: lowerAZ_def in_range_def)

lemma in_range_16_09: "in_range (CHR ''1'') (CHR ''6'') x \<Longrightarrow> in_range (CHR ''0'') (CHR ''9'') x"
  by (simp add: in_range_def)

subsection \<open>Heading hierarchy\<close>

lemma level_class: 
  assumes "cmatch True (Cls False [Rng (CHR ''1'') (CHR ''6'')]) d"
  shows "in_range (CHR ''1'') (CHR ''6'') d"
proof -
  from assms have "in_range (CHR ''1'') (CHR ''6'') d \<or> in_range (CHR ''1'') (CHR ''6'') (canon d) \<or> in_range (CHR ''1'') (CHR ''6'') (lower d)"
    by simp
  moreover have "in_range (CHR ''1'') (CHR ''6'') (canon d) \<Longrightarrow> canon d = d"
    using canon_cases[of d] upperAZ_not_digit in_range_16_09 by blast
  moreover have "in_range (CHR ''1'') (CHR ''6'') (lower d) \<Longrightarrow> lower d = d"
    using lower_cases[of d] lowerAZ_not_digit in_range_16_09 by blast
  ultimately show ?thesis by auto
qed

lemma headingRegex_unfold:
  "rmatch True headingRegex s = Some (mk, rest) \<Longrightarrow>
   \<exists>a b d t mk'. s = a # b # d # t \<and> cmatch True (Cls False [Rng (CHR ''1'') (CHR ''6'')]) d
     \<and> rmatch True [Star notGt, One (Lit (CHR ''>''))] t = Some (mk', rest) \<and> mk = (d # t) # t # mk'"
proof -
  assume a: "rmatch True headingRegex s = Some (mk, rest)"
  then obtain a s1 where s1: "s = a # s1" unfolding headingRegex_def lits_def by (cases s) auto
  with a obtain b s2 where s2: "s1 = b # s2" unfolding headingRegex_def lits_def by (cases s1) (auto split: if_splits)
  with a s1 obtain d t where s3: "s2 = d # t" unfolding headingRegex_def lits_def by (cases s2) (auto split: if_splits)
  from a s1 s2 s3 show ?thesis unfolding headingRegex_def lits_def
    by (auto split: if_splits)
qed

lemma headingRegex_capture:
  assumes "rmatch True headingRegex s = Some (mk, rest)"
  shows "\<exists>d. groups mk = [[d]] \<and> in_range (CHR ''1'') (CHR ''6'') d"
proof -
  from headingRegex_unfold[OF assms] obtain a b d t mk' where s: "s = a # b # d # t"
    and d: "cmatch True (Cls False [Rng (CHR ''1'') (CHR ''6'')]) d"
    and r: "rmatch True [Star notGt, One (Lit (CHR ''>''))] t = Some (mk', rest)"
    and mk: "mk = (d # t) # t # mk'"
    by blast
  from r have "mk' = []" using rmatch_marks by fastforce
  with mk have "groups mk = [[d]]" by simp
  with d level_class show ?thesis by blast
qed

lemma parseInt_level:
  assumes "in_range (CHR ''1'') (CHR ''6'') d"
  shows "\<exists>n. parseInt (Some [d]) = Some n \<and> 1 \<le> n \<and> n \<le> 6"
proof -
  from assms have r: "(49::nat) \<le> of_char d" "(of_char d :: nat) \<le> 54"
    by (simp_all add: in_range_def)
  then have "isDigit d" by (simp add: isDigit_def in_range_def)
  then have "parseInt (Some [d]) = Some (int (of_char d - 48))"
    by (simp add: parseInt_def)
  with r show ?thesis by simp
qed

lemma mkMatch_cap1: "groups mk = [g] \<Longrightarrow> cap (mkMatch s mk rest) 1 = Some g"
  by (simp add: cap_def mkMatch_def)

lemma heading_match_level:
  assumes "execAll True headingRegex html = Some ms" and "m \<in> set ms"
  shows "\<exists>n. parseInt (cap m 1) = Some n \<and> 1 \<le> n \<and> n \<le> 6"
proof -
  from execAll_rmatch[OF assms] obtain s' mk rest
    where r: "rmatch True headingRegex s' = Some (mk, rest)" and m: "m = mkMatch s' mk rest"
    by blast
  from headingRegex_capture[OF r] obtain d
    where d: "groups mk = [[d]]" "in_range (CHR ''1'') (CHR ''6'') d" by blast
  from d(1) m have "cap m 1 = Some [d]" using mkMatch_cap1[of mk "[d]" s' rest] by simp
  with parseInt_level[OF d(2)] show ?thesis by simp
qed

lemma headingRegex_returns: "\<exists>ms. execAll True headingRegex html = Some ms"
  unfolding headingRegex_def lits_def using execAll_One_returns by simp

lemma extractHeadings_levels:
  "\<exists>hs. extractHeadings html = Some (map Some hs) \<and> (\<forall>h \<in> set hs. 1 \<le> h \<and> h \<le> 6)"
proof -
  from headingRegex_returns obtain ms where ms: "execAll True headingRegex html = Some ms"
    by blast
  define hs where "hs = map (\<lambda>m. the (parseInt (cap m 1))) ms"
  have each: "\<And>m. m \<in> set ms \<Longrightarrow>
      parseInt (cap m 1) = Some (the (parseInt (cap m 1)))
      \<and> 1 \<le> the (parseInt (cap m 1)) \<and> the (parseInt (cap m 1)) \<le> 6"
    using heading_match_level[OF ms] by fastforce
  then have "map (\<lambda>m. parseInt (cap m 1)) ms = map Some hs"
    by (simp add: hs_def)
  with ms have "extractHeadings html = Some (map Some hs)"
    by (simp add: extractHeadings_def)
  moreover from each have "\<forall>h \<in> set hs. 1 \<le> h \<and> h \<le> 6"
    by (auto simp: hs_def)
  ultimately show ?thesis by blast
qed

lemma headingSteps_iff:
  "headingSteps (map Some hs) \<longleftrightarrow> (\<forall>i. Suc i < length hs \<longrightarrow> hs ! Suc i - hs ! i \<le> 1)"
proof (induction hs rule: induct_list012)
  case 1 show ?case by simp
next
  case (2 x) show ?case by simp
next
  case (3 a b hs)
  have split: "(\<forall>i. Suc i < length (a # b # hs) \<longrightarrow> (a # b # hs) ! Suc i - (a # b # hs) ! i \<le> 1)
      \<longleftrightarrow> (b - a \<le> 1 \<and> (\<forall>i. Suc i < length (b # hs) \<longrightarrow> (b # hs) ! Suc i - (b # hs) ! i \<le> 1))"
    (is "?L \<longleftrightarrow> ?R")
  proof
    assume L: ?L
    from L[rule_format, of 0] have "b - a \<le> 1" by simp
    moreover have "\<forall>i. Suc i < length (b # hs) \<longrightarrow> (b # hs) ! Suc i - (b # hs) ! i \<le> 1"
    proof (intro allI impI)
      fix i assume "Suc i < length (b # hs)"
      with L[rule_format, of "Suc i"] show "(b # hs) ! Suc i - (b # hs) ! i \<le> 1" by simp
    qed
    ultimately show ?R by blast
  next
    assume R: ?R
    show ?L
    proof (intro allI impI)
      fix i assume i: "Suc i < length (a # b # hs)"
      show "(a # b # hs) ! Suc i - (a # b # hs) ! i \<le> 1"
      proof (cases i)
        case 0 with R show ?thesis by simp
      next
        case (Suc j)
        with i R[THEN conjunct2, rule_format, of j] show ?thesis by simp
      qed
    qed
  qed
  have "headingSteps (map Some (a # b # hs)) \<longleftrightarrow> (b - a \<le> 1 \<and> headingSteps (map Some (b # hs)))"
    by (auto simp: jsGreater_def jsMinus_def jsLessEq_def)
  with 3 split show ?case by simp
qed

lemma count_h1: "(length (filter (\<lambda>h. h = Some 1) (map Some hs)) \<ge> 1) \<longleftrightarrow> (1::int) \<in> set hs"
  by (induction hs) auto

text \<open>
  C2.  The headings of a page are the levels 1 to 6 of the matches of the heading regex in
  document order.  The heading check of a page passes exactly when the page has at least
  one h1 and, for every two adjacent headings, the later level minus the earlier level is
  at most 1; any decrease is allowed.
\<close>

theorem heading_hierarchy_check:
  "\<exists>hs. extractHeadings html = Some (map Some hs)
     \<and> (\<forall>h \<in> set hs. 1 \<le> h \<and> h \<le> 6)
     \<and> (headingStructure html = Some Passed
          \<longleftrightarrow> (1 \<in> set hs \<and> (\<forall>i. Suc i < length hs \<longrightarrow> hs ! Suc i - hs ! i \<le> 1)))"
proof -
  from extractHeadings_levels obtain hs
    where hs: "extractHeadings html = Some (map Some hs)" "\<forall>h \<in> set hs. 1 \<le> h \<and> h \<le> 6"
    by blast
  have "headingStructure html = Some Passed
      \<longleftrightarrow> (1 \<in> set hs \<and> (\<forall>i. Suc i < length hs \<longrightarrow> hs ! Suc i - hs ! i \<le> 1))"
    unfolding headingStructure_def hs(1) using count_h1[of hs] headingSteps_iff[of hs]
    by simp
  with hs show ?thesis by blast
qed

theorem heading_hierarchy_check_witness:
  "headingStructure ''<h1>T</h1><h2>a</h2><h3>b</h3><h2>c</h2>'' = Some Passed
   \<and> headingStructure ''<h1>T</h1><h2>a</h2><h4>b</h4>'' \<noteq> Some Passed"
proof -
  let ?ok = "''<h1>T</h1><h2>a</h2><h3>b</h3><h2>c</h2>''"
  let ?bad = "''<h1>T</h1><h2>a</h2><h4>b</h4>''"
  have e1: "extractHeadings ?ok = Some (map Some [1, 2, 3, 2])" by code_simp
  have e2: "extractHeadings ?bad = Some (map Some [1, 2, 4])" by code_simp
  from heading_hierarchy_check[of ?ok] obtain hs where
    hs: "extractHeadings ?ok = Some (map Some hs)" and
    iff: "headingStructure ?ok = Some Passed
          \<longleftrightarrow> (1 \<in> set hs \<and> (\<forall>i. Suc i < length hs \<longrightarrow> hs ! Suc i - hs ! i \<le> 1))"
    by blast
  from hs e1 have "map Some hs = map Some [1, 2, 3, 2]" by simp
  then have h: "hs = [1, 2, 3, 2]" by (simp add: map_eq_Cons_conv)
  have "\<forall>i. Suc i < length hs \<longrightarrow> hs ! Suc i - hs ! i \<le> 1"
    unfolding h by (auto simp: nth_Cons' less_Suc_eq)
  with iff h have ok: "headingStructure ?ok = Some Passed" by simp
  from heading_hierarchy_check[of ?bad] obtain hs' where
    hs': "extractHeadings ?bad = Some (map Some hs')" and
    iff': "headingStructure ?bad = Some Passed
          \<longleftrightarrow> (1 \<in> set hs' \<and> (\<forall>i. Suc i < length hs' \<longrightarrow> hs' ! Suc i - hs' ! i \<le> 1))"
    by blast
  from hs' e2 have "map Some hs' = map Some [1, 2, 4]" by simp
  then have h': "hs' = [1, 2, 4]" by (simp add: map_eq_Cons_conv)
  have "\<not> (\<forall>i. Suc i < length hs' \<longrightarrow> hs' ! Suc i - hs' ! i \<le> 1)"
    unfolding h' by (auto intro: exI[of _ 1])
  with iff' have "headingStructure ?bad \<noteq> Some Passed" by simp
  with ok show ?thesis by simp
qed

subsection \<open>Navigation behaviour\<close>

lemma updateNavbarOnScroll_inv:
  "navbar w \<noteq> None \<Longrightarrow> carriesScrolled (updateNavbarOnScroll w) \<longleftrightarrow> scrollY w > 50"
  by (auto simp: updateNavbarOnScroll_def carriesScrolled_def classListAdd_def classListRemove_def
           split: if_splits)

lemma updateNavbarOnScroll_keeps:
  "navbar (updateNavbarOnScroll w) \<noteq> None \<longleftrightarrow> navbar w \<noteq> None"
  "listening (updateNavbarOnScroll w) = listening w"
  "scrollY (updateNavbarOnScroll w) = scrollY w"
  by (auto simp: updateNavbarOnScroll_def split: option.splits)

lemma init_inv: "navbar w \<noteq> None \<Longrightarrow> navbarInv (initNavbarScrollBehavior w)"
  using updateNavbarOnScroll_inv[of w] updateNavbarOnScroll_keeps[of w]
  by (auto simp: navbarInv_def initNavbarScrollBehavior_def carriesScrolled_def split: option.splits)

lemma init_offset: "scrollY (initNavbarScrollBehavior w) = scrollY w"
  by (simp add: initNavbarScrollBehavior_def updateNavbarOnScroll_keeps split: option.splits)

lemma scrollEvent_inv: "navbarInv w \<Longrightarrow> navbarInv (scrollEvent y w)"
  using updateNavbarOnScroll_inv[of "w\<lparr>scrollY := y\<rparr>"] updateNavbarOnScroll_keeps[of "w\<lparr>scrollY := y\<rparr>"]
  by (auto simp: navbarInv_def scrollEvent_def Let_def)

lemma scrollEvent_offset: "scrollY (scrollEvent y w) = y"
  by (simp add: scrollEvent_def Let_def updateNavbarOnScroll_keeps)

lemma scrollEvents_inv: "navbarInv w \<Longrightarrow> navbarInv (scrollEvents ys w)"
  by (induction ys arbitrary: w) (auto simp: scrollEvent_inv)

lemma scrollEvents_offset: "scrollY (scrollEvents ys w) = last (scrollY w # ys)"
  by (induction ys arbitrary: w) (auto simp: scrollEvent_offset)

text \<open>
  C9.  When the page has a navbar element, then after initialisation and after every scroll
  event that follows, the navbar carries the class \<^verbatim>\<open>navbar-scrolled\<close> exactly when the
  vertical scroll offset is strictly greater than 50; the offset is the one of the last
  scroll event, or the initial one when there was none.
\<close>

theorem navbar_scrolled_invariant:
  "navbar w \<noteq> None \<Longrightarrow>
     (carriesScrolled (scrollEvents ys (initNavbarScrollBehavior w))
        \<longleftrightarrow> scrollY (scrollEvents ys (initNavbarScrollBehavior w)) > 50)
     \<and> scrollY (scrollEvents ys (initNavbarScrollBehavior w)) = last (scrollY w # ys)"
  using scrollEvents_inv[OF init_inv, of w ys] scrollEvents_offset[of ys "initNavbarScrollBehavior w"]
  by (simp add: navbarInv_def init_offset)

theorem navbar_scrolled_invariant_witness:
  "navbar \<lparr>navbar = Some [''navbar'', ''fixed-top''], scrollY = 0, listening = False\<rparr> \<noteq> None
   \<and> carriesScrolled (scrollEvents [10, 51]
         (initNavbarScrollBehavior \<lparr>navbar = Some [''navbar'', ''fixed-top''], scrollY = 0, listening = False\<rparr>))
   \<and> \<not> carriesScrolled (scrollEvents [120, 50]
         (initNavbarScrollBehavior \<lparr>navbar = Some [''navbar'', ''fixed-top''], scrollY = 0, listening = False\<rparr>))
   \<and> \<not> carriesScrolled (scrollEvents []
         (initNavbarScrollBehavior \<lparr>navbar = Some [''navbar'', ''fixed-top''], scrollY = 0, listening = False\<rparr>))"
  using navbar_scrolled_invariant[of "\<lparr>navbar = Some [''navbar'', ''fixed-top''], scrollY = 0, listening = False\<rparr>" "[10, 51]"]
    navbar_scrolled_invariant[of "\<lparr>navbar = Some [''navbar'', ''fixed-top''], scrollY = 0, listening = False\<rparr>" "[120, 50]"]
    navbar_scrolled_invariant[of "\<lparr>navbar = Some [''navbar'', ''fixed-top''], scrollY = 0, listening = False\<rparr>" "[]"]
  by simp

subsection \<open>External links\<close>











subsection \<open>External resources\<close>

lemma groups_length: "length (groups ms) = length ms div 2"
  by (induction ms rule: groups.induct) auto

lemma cap1_defined:
  assumes "rmatch ci r s = Some (mk, rest)" and "length (filter isGroup r) = 2"
  shows "\<exists>g. cap (mkMatch s mk rest) 1 = Some g"
proof -
  from rmatch_marks[OF assms(1)] assms(2) have "length mk = 2" by simp
  then have "length (groups mk) = 1" by (simp add: groups_length)
  then show ?thesis by (simp add: cap_def mkMatch_def)
qed

















subsection \<open>Alternative text of images\<close>

lemma forEachOutcome_iff: "forEachOutcome body xs = Passed \<longleftrightarrow> (\<forall>x \<in> set xs. body x = Passed)"
  by (induction xs) (auto split: outcome.splits)

lemma regexMatch_cap1:
  assumes "regexMatch ci r s = Some m" and "length (filter isGroup r) = 2"
  shows "\<exists>g. cap m 1 = Some g"
proof -
  from assms(1) obtain rest where "rsearch ci r s = Some (m, rest)"
    by (auto simp: regexMatch_def)
  from rsearch_rmatch[OF this] obtain pre s' mk where
    "rmatch ci r s' = Some (mk, rest)" "m = mkMatch s' mk rest" by blast
  with cap1_defined[OF _ assms(2)] show ?thesis by blast
qed

lemma altRegex_groups: "length (filter isGroup altRegex) = 2"
  by (simp add: altRegex_def lits_def)

lemma nonEmptyAltTag_iff:
  "nonEmptyAltTag t = Passed \<longleftrightarrow> (\<exists>v. altValue t = Some v \<and> 0 < length (trim v))"
proof (cases "regexMatch False altRegex t")
  case None
  then show ?thesis by (simp add: nonEmptyAltTag_def altValue_def)
next
  case (Some m)
  from regexMatch_cap1[OF Some altRegex_groups] obtain g where "cap m 1 = Some g" by blast
  with Some show ?thesis by (simp add: nonEmptyAltTag_def altValue_def)
qed

lemma descriptiveAltTag_iff:
  "descriptiveAltTag t = Passed \<longleftrightarrow>
     (altValue t = None \<or> (\<exists>v. altValue t = Some v \<and> 3 \<le> length (trim v)
        \<and> toLowerCase (trim v) \<notin> set genericTerms))"
proof (cases "regexMatch False altRegex t")
  case None
  then show ?thesis by (simp add: descriptiveAltTag_def altValue_def)
next
  case (Some m)
  from regexMatch_cap1[OF Some altRegex_groups] obtain g where "cap m 1 = Some g" by blast
  with Some show ?thesis
    by (auto simp: descriptiveAltTag_def altValue_def Let_def list_ex_iff)
qed

lemma imgRegex_returns: "\<exists>ms. execAll True imgRegex html = Some ms"
  unfolding imgRegex_def lits_def using execAll_One_returns by simp

text \<open>
  The two tests of the alt text ask the same of every image tag of a page, decorative or
  not: an alt attribute whose trimmed value has at least 3 characters and is none of the
  generic terms in lower case.
\<close>

lemma alt_text_of_every_image:
  "\<exists>tags. imgTags html = Some tags
     \<and> ((nonEmptyAlt html = Some Passed \<and> descriptiveAlt html = Some Passed)
          \<longleftrightarrow> (\<forall>t \<in> set tags. \<exists>v. altValue t = Some v \<and> 3 \<le> length (trim v)
                 \<and> toLowerCase (trim v) \<notin> set genericTerms))"
proof -
  from imgRegex_returns obtain ms where "execAll True imgRegex html = Some ms" by blast
  then obtain tags where tags: "imgTags html = Some tags" by (simp add: imgTags_def)
  have "(nonEmptyAlt html = Some Passed \<and> descriptiveAlt html = Some Passed)
          \<longleftrightarrow> (\<forall>t \<in> set tags. \<exists>v. altValue t = Some v \<and> 3 \<le> length (trim v)
                 \<and> toLowerCase (trim v) \<notin> set genericTerms)"
    unfolding nonEmptyAlt_def descriptiveAlt_def tags
    by (simp add: forEachOutcome_iff nonEmptyAltTag_iff descriptiveAltTag_iff) fastforce
  with tags show ?thesis by blast
qed

text \<open>
  C4.  The image \<open>decorativeImg\<close> is marked decorative (\<^verbatim>\<open>role="presentation"\<close>) and has
  an empty alt.  The test \<open>decorative images can have empty alt\<close> accepts the page that
  holds it, but the tests \<open>all images have non-empty alt text\<close> and
  \<open>alt text is descriptive\<close> fail on that page: they do not exempt decorative images.
\<close>

theorem decorative_empty_alt_rejected:
  "imgTags pageDecorativeImg = Some [decorativeImg]
   \<and> isDecorative decorativeImg
   \<and> decorativeAlt pageDecorativeImg = Some Passed
   \<and> nonEmptyAlt pageDecorativeImg = Some Failed
   \<and> descriptiveAlt pageDecorativeImg = Some Failed"
  by code_simp

subsection \<open>Files that are not there\<close>

lemma forEachFile_all_passed:
  "(\<forall>f \<in> set files. body f = Some Passed) \<Longrightarrow> forEachFile body files = Some Passed"
  by (induction files) auto

lemma tests_skip_every_file:
  "headingStructureTest noFiles = Some Passed"
  "nonEmptyAltTest noFiles = Some Passed"
  "descriptiveAltTest noFiles = Some Passed"
  "decorativeAltTest noFiles = Some Passed"
  "duplicateResourcesTest noFiles = Some Passed"
  by (simp_all add: headingStructureTest_def nonEmptyAltTest_def descriptiveAltTest_def
      decorativeAltTest_def duplicateResourcesTest_def forEachFile_all_passed noFiles_def
      headingStructureFile_def nonEmptyAltFile_def descriptiveAltFile_def decorativeAltFile_def
      duplicateResourcesFile_def)

text \<open>
  C3, as the claim states it, fails: the test \<open>publication entries have consistent CSS classes\<close>
  does not pass when \<^verbatim>\<open>publications.html\<close> is missing, it raises an error.
\<close>

theorem publication_check_raises_on_missing_file:
  "publicationEntryClasses noFiles [0, 1, 2] = Some (Raised ''publications.html not found'')"
  by (simp add: publicationEntryClasses_def noFiles_def)

text \<open>
  C3, amended.  The link, heading, alt text and resource checks skip a file that does not
  exist: they pass on it and raise nothing.  The check of the classes of the publication
  entries raises the error \<^verbatim>\<open>publications.html not found\<close> when that file does not exist,
  whatever entries the generator would draw.
\<close>

theorem missing_file_policy:
  "(fs filename = None \<longrightarrow>
      externalLinksTargetFile fs filename = Some Passed
      \<and> externalLinksRelFile fs filename = Some Passed
      \<and> headingStructureFile fs filename = Some Passed
      \<and> nonEmptyAltFile fs filename = Some Passed
      \<and> descriptiveAltFile fs filename = Some Passed
      \<and> decorativeAltFile fs filename = Some Passed
      \<and> externalRequestsFile fs filename = Some Passed
      \<and> duplicateResourcesFile fs filename = Some Passed)
   \<and> (fs ''publications.html'' = None \<longrightarrow>
      publicationEntryClasses fs draws = Some (Raised ''publications.html not found''))"
  by (simp add: externalLinksTargetFile_def externalLinksRelFile_def headingStructureFile_def
      nonEmptyAltFile_def descriptiveAltFile_def decorativeAltFile_def externalRequestsFile_def
      duplicateResourcesFile_def publicationEntryClasses_def)

theorem missing_file_policy_witness:
  "noFiles ''index.html'' = None
   \<and> externalLinksTargetFile noFiles ''index.html'' = Some Passed
   \<and> externalLinksRelFile noFiles ''index.html'' = Some Passed
   \<and> headingStructureFile noFiles ''index.html'' = Some Passed
   \<and> nonEmptyAltFile noFiles ''index.html'' = Some Passed
   \<and> externalRequestsFile noFiles ''index.html'' = Some Passed
   \<and> duplicateResourcesFile noFiles ''index.html'' = Some Passed
   \<and> noFiles ''publications.html'' = None
   \<and> publicationEntryClasses noFiles [] = Some (Raised ''publications.html not found'')"
  using missing_file_policy[of noFiles "''index.html''" "[]"] by (simp add: noFiles_def)

text \<open>On a page that is there the check of the publication entries runs as usual.\<close>

lemma publication_check_examples:
  "publicationEntryClasses [''publications.html'' \<mapsto> pagePublication] [0, 3, 1] = Some Passed"
  "publicationEntryClasses [''publications.html'' \<mapsto> ''<p>''] [0, 3, 1] = Some Failed"
  by code_simp+

subsection \<open>Build pipeline\<close>





























subsection \<open>Colour contrast\<close>

lemma hex_text: "hexToRgb ''#1a1a1a'' = Some \<lparr>red = 26, green = 26, blue = 26\<rparr>"
  by code_simp

lemma hex_background: "hexToRgb ''#ffffff'' = Some \<lparr>red = 255, green = 255, blue = 255\<rparr>"
  by code_simp

lemma hex_ex: "hexToRgb ''FFaa00'' = Some \<lparr>red = 255, green = 170, blue = 0\<rparr>" "hexToRgb ''#ffffff0'' = None" "hexToRgb ''#fffff'' = None"
  by code_simp+

lemma exact_contrast: "getContrastRatio (\<lambda>x. x) (powr) c1 c2 = specContrastRatio c1 c2"
  by (simp add: getContrastRatio_def getLuminance_def linearChannel_def specContrastRatio_def
      specLuminance_def specGamma_def Let_def)

lemma rounds_exact: "rounds (\<lambda>x. x)"
  by (simp add: rounds_def)

lemma approximatesPow_exact: "approximatesPow (powr)"
  by (simp add: approximatesPow_def)

lemma fl_up:
  assumes "rounds fl" "x \<le> B" "1 / 1024 \<le> B" "B \<le> 1024"
  shows "fl x \<le> B * (1001 / 1000)"
proof -
  from assms(1,2) have "fl x \<le> fl B" by (simp add: rounds_def)
  moreover from assms(1,3,4) have "\<bar>fl B - B\<bar> \<le> B / 1000" by (simp add: rounds_def)
  ultimately show ?thesis by linarith
qed

lemma fl_lo:
  assumes "rounds fl" "A \<le> x" "1 / 1024 \<le> A" "A \<le> 1024"
  shows "A * (999 / 1000) \<le> fl x"
proof -
  from assms(1,2) have "fl A \<le> fl x" by (simp add: rounds_def)
  moreover from assms(1,3,4) have "\<bar>fl A - A\<bar> \<le> A / 1000" by (simp add: rounds_def)
  ultimately show ?thesis by linarith
qed

lemma fl_nonneg: "rounds fl \<Longrightarrow> 0 \<le> x \<Longrightarrow> 0 \<le> fl x"
  by (metis rounds_def)

lemma lit_bounds:
  assumes "rounds fl" "1 / 1024 \<le> L" "L \<le> 1024"
  shows "L * (999 / 1000) \<le> fl L" and "fl L \<le> L * (1001 / 1000)"
  using fl_lo[OF assms(1) _ assms(2,3), of L] fl_up[OF assms(1) _ assms(2,3), of L] by simp_all

lemma pow_bounds:
  assumes "approximatesPow pw" "1 / 1024 \<le> q" "q \<le> 2" "2 \<le> e" "e \<le> 3"
  shows "(q powr e) * (999 / 1000) \<le> pw q e" and "pw q e \<le> (q powr e) * (1001 / 1000)"
proof -
  from assms have "\<bar>pw q e - q powr e\<bar> \<le> (q powr e) / 1000"
    unfolding approximatesPow_def by blast
  then show "(q powr e) * (999 / 1000) \<le> pw q e" and "pw q e \<le> (q powr e) * (1001 / 1000)"
    by linarith+
qed

lemma linear_dark:
  assumes r: "rounds fl" and p: "approximatesPow pw"
  shows "0 \<le> linearChannel fl pw 26" and "linearChannel fl pw 26 \<le> 0.02241"
proof -
  define t where "t = fl 0.03928"
  define c where "c = fl (26 / 255)"
  define a where "a = fl 0.055"
  define d where "d = fl 1.055"
  define e where "e = fl 2.4"
  define s where "s = fl (c + a)"
  define q where "q = fl (s / d)"
  have t: "t \<le> 0.0394" unfolding t_def using lit_bounds[OF r, of "0.03928"] by simp
  have c: "0.1018 \<le> c" "c \<le> 0.1021" unfolding c_def using lit_bounds[OF r, of "26 / 255"] by simp_all
  have a: "0.0549 \<le> a" "a \<le> 0.0551" unfolding a_def using lit_bounds[OF r, of "0.055"] by simp_all
  have d: "1.0539 \<le> d" "d \<le> 1.0561" unfolding d_def using lit_bounds[OF r, of "1.055"] by simp_all
  have e: "2 \<le> e" "e \<le> 3" unfolding e_def using lit_bounds[OF r, of "2.4"] by simp_all
  have s: "0.1565 \<le> s" "s \<le> 0.1574"
    unfolding s_def using fl_lo[OF r, of "0.1567" "c + a"] fl_up[OF r, of "c + a" "0.1572"] c a
    by simp_all
  have "s / d \<le> 0.1574 / 1.0539" using s d by (intro frac_le) simp_all
  then have sd_up: "s / d \<le> 0.14936" by simp
  have "0.1565 / 1.0561 \<le> s / d" using s d by (intro frac_le) simp_all
  then have sd_lo: "0.1481 \<le> s / d" by simp
  have q: "0.1479 \<le> q" "q \<le> 0.1496"
    unfolding q_def using fl_lo[OF r, of "0.1481" "s / d"] fl_up[OF r, of "s / d" "0.14936"] sd_lo sd_up
    by simp_all
  have "q powr e \<le> q powr 2" using e q by (intro powr_mono') simp_all
  also have "q powr 2 = q ^ 2" using q by simp
  also have "q ^ 2 \<le> 0.1496 ^ 2" using q by (intro power_mono) simp_all
  finally have qe: "q powr e \<le> 0.02238016" by (simp add: power2_eq_square)
  have qe0: "0 \<le> q powr e" by simp
  from pow_bounds[OF p, of q e] q e have pw: "(q powr e) * (999 / 1000) \<le> pw q e"
      "pw q e \<le> (q powr e) * (1001 / 1000)" by simp_all
  from pw(1) qe0 have lo: "0 \<le> pw q e" by linarith
  from pw(2) qe have up: "pw q e \<le> 0.02241" by simp
  from c t have "\<not> c \<le> t" by simp
  then have "linearChannel fl pw 26 = pw q e"
    by (simp add: linearChannel_def Let_def t_def c_def a_def d_def e_def s_def q_def)
  with lo up show "0 \<le> linearChannel fl pw 26" and "linearChannel fl pw 26 \<le> 0.02241"
    by simp_all
qed

lemma linear_white:
  assumes r: "rounds fl" and p: "approximatesPow pw"
  shows "0.9894 \<le> linearChannel fl pw 255"
proof -
  define t where "t = fl 0.03928"
  define a where "a = fl 0.055"
  define d where "d = fl 1.055"
  define e where "e = fl 2.4"
  define s where "s = fl (1 + a)"
  define q where "q = fl (s / d)"
  have one: "fl 1 = 1" using r by (simp add: rounds_def)
  have t: "t \<le> 0.0394" unfolding t_def using lit_bounds[OF r, of "0.03928"] by simp
  have a: "0.0549 \<le> a" "a \<le> 0.0551" unfolding a_def using lit_bounds[OF r, of "0.055"] by simp_all
  have d: "1.0539 \<le> d" "d \<le> 1.0561" unfolding d_def using lit_bounds[OF r, of "1.055"] by simp_all
  have e: "2 \<le> e" "e \<le> 3" unfolding e_def using lit_bounds[OF r, of "2.4"] by simp_all
  have s: "1.0538 \<le> s" "s \<le> 1.0562"
    unfolding s_def using fl_lo[OF r, of "1.0549" "1 + a"] fl_up[OF r, of "1 + a" "1.0551"] a
    by simp_all
  have "s / d \<le> 1.0562 / 1.0539" using s d by (intro frac_le) simp_all
  then have sd_up: "s / d \<le> 1.0022" by simp
  have "1.0538 / 1.0561 \<le> s / d" using s d by (intro frac_le) simp_all
  then have sd_lo: "0.9978 \<le> s / d" by simp
  have q: "0.9968 \<le> q" "q \<le> 1.0033"
    unfolding q_def using fl_lo[OF r, of "0.9978" "s / d"] fl_up[OF r, of "s / d" "1.0022"] sd_lo sd_up
    by simp_all
  have qe: "0.9904 \<le> q powr e"
  proof (cases "1 \<le> q")
    case True
    with e have "1 \<le> q powr e" by (intro ge_one_powr_ge_zero) simp_all
    then show ?thesis by simp
  next
    case False
    have "0.9968 ^ 3 \<le> q ^ 3" using q by (intro power_mono) simp_all
    also have "q ^ 3 = q powr 3" using q by simp
    also have "q powr 3 \<le> q powr e" using e q False by (intro powr_mono') simp_all
    finally show ?thesis by (simp add: power3_eq_cube)
  qed
  from pow_bounds[OF p, of q e] q e have pw: "(q powr e) * (999 / 1000) \<le> pw q e" by simp
  from pw qe have lo: "0.9894 \<le> pw q e" by simp
  from t have "\<not> 1 \<le> t" by simp
  then have "linearChannel fl pw 255 = pw q e"
    by (simp add: linearChannel_def Let_def one t_def a_def d_def e_def s_def q_def)
  with lo show ?thesis by simp
qed

lemma linear_nonneg:
  assumes r: "rounds fl" and p: "approximatesPow pw" and v: "v \<le> 255"
  shows "0 \<le> linearChannel fl pw v"
proof -
  define t where "t = fl 0.03928"
  define c where "c = fl (real v / 255)"
  define a where "a = fl 0.055"
  define d where "d = fl 1.055"
  define e where "e = fl 2.4"
  define s where "s = fl (c + a)"
  define q where "q = fl (s / d)"
  have mono: "\<And>x y. x \<le> y \<Longrightarrow> fl x \<le> fl y" using r by (simp add: rounds_def)
  have one: "fl 1 = 1" and zero: "fl 0 = 0" using r by (simp_all add: rounds_def)
  from v have "real v / 255 \<le> 1" by simp
  from mono[OF this] one have c1: "c \<le> 1" by (simp add: c_def)
  have "0 \<le> real v / 255" by simp
  from mono[OF this] zero have c0: "0 \<le> c" by (simp add: c_def)
  show ?thesis
  proof (cases "c \<le> t")
    case True
    have "0 \<le> fl 12.92" using fl_nonneg[OF r, of "12.92"] by simp
    with c0 have "0 \<le> c / fl 12.92" by simp
    from fl_nonneg[OF r this] True show ?thesis
      by (simp add: linearChannel_def Let_def c_def t_def)
  next
    case False
    have t: "0.0392 \<le> t" unfolding t_def using lit_bounds[OF r, of "0.03928"] by simp
    with False have c: "0.0392 \<le> c" by simp
    have a: "0.0549 \<le> a" "a \<le> 0.0551" unfolding a_def using lit_bounds[OF r, of "0.055"] by simp_all
    have d: "1.0539 \<le> d" "d \<le> 1.0561" unfolding d_def using lit_bounds[OF r, of "1.055"] by simp_all
    have e: "2 \<le> e" "e \<le> 3" unfolding e_def using lit_bounds[OF r, of "2.4"] by simp_all
    have s: "0.094 \<le> s" "s \<le> 1.0562"
      unfolding s_def using fl_lo[OF r, of "0.0941" "c + a"] fl_up[OF r, of "c + a" "1.0551"] a c c1
      by simp_all
    have "s / d \<le> 1.0562 / 1.0539" using s d by (intro frac_le) simp_all
    then have sd_up: "s / d \<le> 1.0022" by simp
    have "0.094 / 1.0561 \<le> s / d" using s d by (intro frac_le) simp_all
    then have sd_lo: "0.089 \<le> s / d" by simp
    have q: "0.088 \<le> q" "q \<le> 1.0033"
      unfolding q_def using fl_lo[OF r, of "0.089" "s / d"] fl_up[OF r, of "s / d" "1.0022"] sd_lo sd_up
      by simp_all
    from pow_bounds[OF p, of q e] q e have "(q powr e) * (999 / 1000) \<le> pw q e" by simp
    with powr_ge_zero[of q e] have "0 \<le> pw q e" by linarith
    with False show ?thesis
      by (simp add: linearChannel_def Let_def t_def c_def a_def d_def e_def s_def q_def)
  qed
qed

lemma weight_bounds:
  assumes r: "rounds fl"
  shows "0.2123 \<le> fl 0.2126" "fl 0.2126 \<le> 0.2129" "0.7144 \<le> fl 0.7152" "fl 0.7152 \<le> 0.7160"
    "0.0721 \<le> fl 0.0722" "fl 0.0722 \<le> 0.0723"
  using lit_bounds[OF r, of "0.2126"] lit_bounds[OF r, of "0.7152"] lit_bounds[OF r, of "0.0722"]
  by simp_all

lemma luminance_nonneg:
  assumes r: "rounds fl" and "0 \<le> rs" "0 \<le> gs" "0 \<le> bs"
  shows "0 \<le> fl (fl (fl (fl 0.2126 * rs) + fl (fl 0.7152 * gs)) + fl (fl 0.0722 * bs))"
proof -
  from weight_bounds[OF r] have w: "0 \<le> fl 0.2126" "0 \<le> fl 0.7152" "0 \<le> fl 0.0722" by simp_all
  have m1: "0 \<le> fl (fl 0.2126 * rs)" using w assms by (intro fl_nonneg[OF r]) simp
  have m2: "0 \<le> fl (fl 0.7152 * gs)" using w assms by (intro fl_nonneg[OF r]) simp
  have m3: "0 \<le> fl (fl 0.0722 * bs)" using w assms by (intro fl_nonneg[OF r]) simp
  have "0 \<le> fl (fl (fl 0.2126 * rs) + fl (fl 0.7152 * gs))" using m1 m2 by (intro fl_nonneg[OF r]) simp
  with m3 show ?thesis by (intro fl_nonneg[OF r]) simp
qed

lemma getLuminance_nonneg:
  assumes "rounds fl" "approximatesPow pw" "r \<le> 255" "g \<le> 255" "b \<le> 255"
  shows "0 \<le> getLuminance fl pw r g b"
  unfolding getLuminance_def Let_def
  using assms by (intro luminance_nonneg linear_nonneg)

lemma luminance_dark:
  assumes r: "rounds fl" and p: "approximatesPow pw"
  shows "getLuminance fl pw 26 26 26 \<le> 0.02253"
proof -
  define x where "x = linearChannel fl pw 26"
  from linear_dark[OF r p] have x: "0 \<le> x" "x \<le> 0.02241" by (simp_all add: x_def)
  note w = weight_bounds[OF r]
  have "fl 0.2126 * x \<le> 0.2129 * 0.02241" using w x by (intro mult_mono) simp_all
  then have "fl 0.2126 * x \<le> 0.004772" by simp
  from fl_up[OF r this] have m1: "fl (fl 0.2126 * x) \<le> 0.00478" by simp
  have "fl 0.7152 * x \<le> 0.7160 * 0.02241" using w x by (intro mult_mono) simp_all
  then have "fl 0.7152 * x \<le> 0.01605" by simp
  from fl_up[OF r this] have m2: "fl (fl 0.7152 * x) \<le> 0.01607" by simp
  have "fl 0.0722 * x \<le> 0.0723 * 0.02241" using w x by (intro mult_mono) simp_all
  then have "fl 0.0722 * x \<le> 0.001621" by simp
  from fl_up[OF r this] have m3: "fl (fl 0.0722 * x) \<le> 0.001623" by simp
  from m1 m2 have "fl (fl 0.2126 * x) + fl (fl 0.7152 * x) \<le> 0.02085" by simp
  from fl_up[OF r this] have s12: "fl (fl (fl 0.2126 * x) + fl (fl 0.7152 * x)) \<le> 0.02088" by simp
  from s12 m3 have "fl (fl (fl 0.2126 * x) + fl (fl 0.7152 * x)) + fl (fl 0.0722 * x) \<le> 0.022503"
    by simp
  from fl_up[OF r this]
  have "fl (fl (fl (fl 0.2126 * x) + fl (fl 0.7152 * x)) + fl (fl 0.0722 * x)) \<le> 0.02253" by simp
  then show ?thesis by (simp add: getLuminance_def Let_def x_def)
qed

lemma luminance_white:
  assumes r: "rounds fl" and p: "approximatesPow pw"
  shows "0.9849 \<le> getLuminance fl pw 255 255 255"
proof -
  define x where "x = linearChannel fl pw 255"
  from linear_white[OF r p] have x: "0.9894 \<le> x" by (simp add: x_def)
  note w = weight_bounds[OF r]
  have "0.2123 * 0.9894 \<le> fl 0.2126 * x" using w x by (intro mult_mono) simp_all
  then have "0.21 \<le> fl 0.2126 * x" by simp
  from fl_lo[OF r this] have m1: "0.2097 \<le> fl (fl 0.2126 * x)" by simp
  have "0.7144 * 0.9894 \<le> fl 0.7152 * x" using w x by (intro mult_mono) simp_all
  then have "0.7068 \<le> fl 0.7152 * x" by simp
  from fl_lo[OF r this] have m2: "0.706 \<le> fl (fl 0.7152 * x)" by simp
  have "0.0721 * 0.9894 \<le> fl 0.0722 * x" using w x by (intro mult_mono) simp_all
  then have "0.0713 \<le> fl 0.0722 * x" by simp
  from fl_lo[OF r this] have m3: "0.0712 \<le> fl (fl 0.0722 * x)" by simp
  from m1 m2 have "0.9157 \<le> fl (fl 0.2126 * x) + fl (fl 0.7152 * x)" by simp
  from fl_lo[OF r this] have s12: "0.9147 \<le> fl (fl (fl 0.2126 * x) + fl (fl 0.7152 * x))" by simp
  from s12 m3 have "0.9859 \<le> fl (fl (fl 0.2126 * x) + fl (fl 0.7152 * x)) + fl (fl 0.0722 * x)"
    by simp
  from fl_lo[OF r this]
  have "0.9849 \<le> fl (fl (fl (fl 0.2126 * x) + fl (fl 0.7152 * x)) + fl (fl 0.0722 * x))" by simp
  then show ?thesis by (simp add: getLuminance_def Let_def x_def)
qed

lemma contrast_text_background:
  assumes r: "rounds fl" and p: "approximatesPow pw"
  shows "4.5 \<le> getContrastRatio fl pw \<lparr>red = 26, green = 26, blue = 26\<rparr>
                  \<lparr>red = 255, green = 255, blue = 255\<rparr>"
proof -
  define l1 where "l1 = getLuminance fl pw 26 26 26"
  define l2 where "l2 = getLuminance fl pw 255 255 255"
  define h where "h = fl 0.05"
  define num where "num = fl (max l1 l2 + h)"
  define den where "den = fl (min l1 l2 + h)"
  have l1: "0 \<le> l1" "l1 \<le> 0.02253"
    unfolding l1_def using getLuminance_nonneg[OF r p, of 26 26 26] luminance_dark[OF r p] by simp_all
  have l2: "0.9849 \<le> l2" unfolding l2_def using luminance_white[OF r p] .
  have h: "0.04995 \<le> h" "h \<le> 0.05005" unfolding h_def using lit_bounds[OF r, of "0.05"] by simp_all
  have "1.03485 \<le> max l1 l2 + h" using l2 h by simp
  from fl_lo[OF r this] have num: "1.0338 \<le> num" by (simp add: num_def)
  have "min l1 l2 + h \<le> 0.07258" using l1 h by simp
  from fl_up[OF r this] have den: "den \<le> 0.0727" by (simp add: den_def)
  have "0.04995 \<le> min l1 l2 + h" using l1 l2 h by simp
  from fl_lo[OF r this] have den0: "0.0499 \<le> den" by (simp add: den_def)
  have "14 * den \<le> num" using num den by simp
  with den0 have "14 \<le> num / den" by (simp add: pos_le_divide_eq)
  from fl_lo[OF r this] have "4.5 \<le> fl (num / den)" by simp
  then show ?thesis
    by (simp add: getContrastRatio_def Let_def l1_def l2_def h_def num_def den_def)
qed

lemma contrast_symmetric: "getContrastRatio fl pw c1 c2 = getContrastRatio fl pw c2 c1"
  by (simp add: getContrastRatio_def Let_def max.commute min.commute)

lemma contrast_ge_one:
  assumes r: "rounds fl" and p: "approximatesPow pw" and c1: "isRgb c1" and c2: "isRgb c2"
  shows "1 \<le> getContrastRatio fl pw c1 c2"
proof -
  define l1 where "l1 = getLuminance fl pw (red c1) (green c1) (blue c1)"
  define l2 where "l2 = getLuminance fl pw (red c2) (green c2) (blue c2)"
  define h where "h = fl 0.05"
  define num where "num = fl (max l1 l2 + h)"
  define den where "den = fl (min l1 l2 + h)"
  have mono: "\<And>x y. x \<le> y \<Longrightarrow> fl x \<le> fl y" using r by (simp add: rounds_def)
  have one: "fl 1 = 1" using r by (simp add: rounds_def)
  have l1: "0 \<le> l1" unfolding l1_def using c1 by (intro getLuminance_nonneg[OF r p]) (simp_all add: isRgb_def)
  have l2: "0 \<le> l2" unfolding l2_def using c2 by (intro getLuminance_nonneg[OF r p]) (simp_all add: isRgb_def)
  have h: "0.04995 \<le> h" unfolding h_def using lit_bounds[OF r, of "0.05"] by simp
  have "0.04995 \<le> min l1 l2 + h" using l1 l2 h by simp
  from fl_lo[OF r this] have den0: "0 < den" by (simp add: den_def)
  have "min l1 l2 + h \<le> max l1 l2 + h" by simp
  from mono[OF this] have "den \<le> num" by (simp add: num_def den_def)
  with den0 have "1 \<le> num / den" by simp
  from mono[OF this] one have "1 \<le> fl (num / den)" by simp
  then show ?thesis
    by (simp add: getContrastRatio_def Let_def l1_def l2_def h_def num_def den_def)
qed

text \<open>
  C5.  In exact arithmetic the contrast ratio of the code is the ratio of the specification:
  channels divided by 255, the piecewise gamma transform, the weights 0.2126, 0.7152 and
  0.0722, and the lighter luminance plus 0.05 over the darker luminance plus 0.05.  For the
  text colour \<^verbatim>\<open>#1a1a1a\<close> on the background \<^verbatim>\<open>#ffffff\<close> the ratio that the code computes
  is at least 4.5, whatever the rounding and the power function are within the stated
  accuracy.  The ratio is a function of the two colours: the same pair gives the same value.
\<close>

theorem contrast_of_text_on_background:
  "getContrastRatio (\<lambda>x. x) (powr) c1 c2 = specContrastRatio c1 c2
   \<and> (rounds fl \<and> approximatesPow pw \<longrightarrow>
        (\<exists>fg bg. hexToRgb ''#1a1a1a'' = Some fg \<and> hexToRgb ''#ffffff'' = Some bg
           \<and> 4.5 \<le> getContrastRatio fl pw fg bg))"
  using exact_contrast contrast_text_background hex_text hex_background by simp

theorem contrast_of_text_on_background_witness:
  "rounds (\<lambda>x. x) \<and> approximatesPow (powr)
   \<and> 4.5 \<le> specContrastRatio \<lparr>red = 26, green = 26, blue = 26\<rparr> \<lparr>red = 255, green = 255, blue = 255\<rparr>"
proof -
  from contrast_of_text_on_background[of "\<lparr>red = 26, green = 26, blue = 26\<rparr>"
      "\<lparr>red = 255, green = 255, blue = 255\<rparr>" "\<lambda>x. x" "(powr)"] rounds_exact approximatesPow_exact
  obtain fg bg where
    e: "getContrastRatio (\<lambda>x. x) (powr) \<lparr>red = 26, green = 26, blue = 26\<rparr>
          \<lparr>red = 255, green = 255, blue = 255\<rparr>
        = specContrastRatio \<lparr>red = 26, green = 26, blue = 26\<rparr> \<lparr>red = 255, green = 255, blue = 255\<rparr>"
    and h: "hexToRgb ''#1a1a1a'' = Some fg" "hexToRgb ''#ffffff'' = Some bg"
    and c: "4.5 \<le> getContrastRatio (\<lambda>x. x) (powr) fg bg"
    by blast
  from h hex_text hex_background have "fg = \<lparr>red = 26, green = 26, blue = 26\<rparr>"
    "bg = \<lparr>red = 255, green = 255, blue = 255\<rparr>" by simp_all
  with e c rounds_exact approximatesPow_exact show ?thesis by simp
qed

text \<open>
  C10.  The contrast ratio does not depend on the order of the two colours, and for two
  colours with channels from 0 to 255 it is at least 1, whatever the rounding and the power
  function are within the stated accuracy.
\<close>

theorem contrast_symmetric_at_least_one:
  "getContrastRatio fl pw c1 c2 = getContrastRatio fl pw c2 c1
   \<and> (rounds fl \<and> approximatesPow pw \<and> isRgb c1 \<and> isRgb c2 \<longrightarrow> 1 \<le> getContrastRatio fl pw c1 c2)"
  using contrast_symmetric contrast_ge_one by blast

theorem contrast_symmetric_at_least_one_witness:
  "rounds (\<lambda>x. x) \<and> approximatesPow (powr)
   \<and> isRgb \<lparr>red = 0, green = 102, blue = 204\<rparr> \<and> isRgb \<lparr>red = 255, green = 255, blue = 255\<rparr>
   \<and> specContrastRatio \<lparr>red = 0, green = 102, blue = 204\<rparr> \<lparr>red = 255, green = 255, blue = 255\<rparr>
       = specContrastRatio \<lparr>red = 255, green = 255, blue = 255\<rparr> \<lparr>red = 0, green = 102, blue = 204\<rparr>
   \<and> 1 \<le> specContrastRatio \<lparr>red = 0, green = 102, blue = 204\<rparr> \<lparr>red = 255, green = 255, blue = 255\<rparr>"
  using contrast_symmetric_at_least_one[of "\<lambda>x. x" "(powr)" "\<lparr>red = 0, green = 102, blue = 204\<rparr>"
      "\<lparr>red = 255, green = 255, blue = 255\<rparr>"] rounds_exact approximatesPow_exact exact_contrast
  by (simp add: isRgb_def)

end
